theory Spec2Isabelle
  imports Main "HOL-Library.Char_ord" "HOL-Library.List_Lexorder" "HOL-Library.Multiset"
begin

section \<open>The registry store: the directory tree under ENV_ROOT\<close>

text \<open>
  zap.py keeps no state of its own: every query re-reads the directory tree under
  \<^verbatim>\<open>ENV_ROOT\<close>. The tree is modelled as it is on disk. A directory is the list of its
  entries in the order \<^verbatim>\<open>Path.iterdir()\<close> yields them (the order matters:
  \<^verbatim>\<open>find_envs_by_name\<close> reports matches in that order), a regular file carries its
  contents. A path is the list of its components below \<^verbatim>\<open>ENV_ROOT\<close>; version tags and
  environment names are single path components. \<^verbatim>\<open>ENV_ROOT\<close> itself is created when
  the module is loaded (line 29), before any command runs: the tree is what lies below
  it from then on. Symbolic links, permissions, failures of the file system and
  case-insensitive file systems are outside the model.
\<close>

datatype node = File string | Dir "(string \<times> node) list"

type_synonym entries = "(string \<times> node) list"
type_synonym path = "string list"

text \<open>A directory never lists a name twice, and no entry has the empty name.\<close>

definition wf_entries :: "entries \<Rightarrow> bool" where
  "wf_entries es = (distinct (map fst es) \<and> [] \<notin> set (map fst es))"

fun lookup_path :: "entries \<Rightarrow> path \<Rightarrow> node option" where
  "lookup_path es [] = Some (Dir es)"
| "lookup_path es (c # cs) =
     (case map_of es c of
        None \<Rightarrow> None
      | Some (File d) \<Rightarrow> (if cs = [] then Some (File d) else None)
      | Some (Dir ds) \<Rightarrow> lookup_path ds cs)"

text \<open>\<^verbatim>\<open>Path.exists()\<close> and \<^verbatim>\<open>Path.is_dir()\<close>: both answer False for a path below a
  regular file or below a missing directory.\<close>

definition path_exists :: "entries \<Rightarrow> path \<Rightarrow> bool" where
  "path_exists root p = (lookup_path root p \<noteq> None)"

definition is_dir :: "entries \<Rightarrow> path \<Rightarrow> bool" where
  "is_dir root p = (case lookup_path root p of Some (Dir ds) \<Rightarrow> True | _ \<Rightarrow> False)"

text \<open>\<^verbatim>\<open>Path.iterdir()\<close> on a directory: the paths of its entries, in directory order.\<close>

definition iterdir :: "entries \<Rightarrow> path \<Rightarrow> path list" where
  "iterdir root p =
     (case lookup_path root p of
        Some (Dir ds) \<Rightarrow> map (\<lambda>n. p @ [n]) (map fst ds)
      | _ \<Rightarrow> [])"

text \<open>\<^verbatim>\<open>Path.name\<close>: the last component.\<close>

definition path_name :: "path \<Rightarrow> string" where
  "path_name p = (if p = [] then [] else last p)"

text \<open>Removing the entry at a path with everything below it, as a successful
  \<^verbatim>\<open>shutil.rmtree\<close> does. The root itself is never removed.\<close>

fun remove_tree :: "entries \<Rightarrow> path \<Rightarrow> entries" where
  "remove_tree es [] = es"
| "remove_tree es [c] = filter (\<lambda>e. fst e \<noteq> c) es"
| "remove_tree es (c # c' # cs) =
     map (\<lambda>e. if fst e = c
               then (case snd e of Dir ds \<Rightarrow> (fst e, Dir (remove_tree ds (c' # cs)))
                                 | File d \<Rightarrow> e)
               else e) es"

text \<open>The marker file of a complete virtual environment.\<close>

definition marker :: string where
  "marker = ''pyvenv.cfg''"

section \<open>Name resolution\<close>

text \<open>
  \<^verbatim>\<open>find_envs_by_name\<close> (zap.py, lines 70-101). The \<^verbatim>\<open>for\<close> loop over
  \<^verbatim>\<open>ENV_ROOT.iterdir()\<close> is the recursion \<open>find_loop\<close> over the remaining version
  directories with the list \<open>matching_envs\<close> as accumulator; \<^verbatim>\<open>continue\<close> and
  \<^verbatim>\<open>break\<close> are the two branches that skip the entry and that return at once.
\<close>

fun find_loop :: "entries \<Rightarrow> string \<Rightarrow> bool \<Rightarrow> path list \<Rightarrow> (string \<times> path) list
    \<Rightarrow> (string \<times> path) list" where
  "find_loop root name find_all [] matching_envs = matching_envs"
| "find_loop root name find_all (ver_dir # rest) matching_envs =
     (if \<not> is_dir root ver_dir then find_loop root name find_all rest matching_envs
      else
        let potential_env = ver_dir @ [name] in
        if path_exists root potential_env \<and> path_exists root (potential_env @ [marker])
        then
          (let matching_envs' = matching_envs @ [(path_name ver_dir, potential_env)] in
           if \<not> find_all \<and> length matching_envs' \<ge> 2 then matching_envs'
           else find_loop root name find_all rest matching_envs')
        else find_loop root name find_all rest matching_envs)"

definition find_envs_by_name :: "entries \<Rightarrow> string \<Rightarrow> bool \<Rightarrow> (string \<times> path) list" where
  "find_envs_by_name root name find_all = find_loop root name find_all (iterdir root []) []"

text \<open>
  \<^verbatim>\<open>env_path\<close> (lines 103-122). \<^verbatim>\<open>if version:\<close> is Python truthiness: \<^verbatim>\<open>None\<close> and
  the empty string both take the legacy branch, which walks \<^verbatim>\<open>ENV_ROOT.glob("*/*")\<close>:
  the entries of every directory entry of the root, in directory order.
\<close>

definition truthy :: "string option \<Rightarrow> bool" where
  "truthy v = (case v of None \<Rightarrow> False | Some s \<Rightarrow> s \<noteq> [])"

definition glob2 :: "entries \<Rightarrow> path list" where
  "glob2 root = concat (map (\<lambda>d. iterdir root d) (filter (is_dir root) (iterdir root [])))"

definition env_path :: "entries \<Rightarrow> string \<Rightarrow> string option \<Rightarrow> path option" where
  "env_path root name version =
     (if truthy version then
        (let env_dir = [the version, name] in
         if is_dir root env_dir \<and> path_exists root (env_dir @ [marker]) then Some env_dir
         else None)
      else
        (case filter (\<lambda>sub. is_dir root sub \<and> path_name sub = name
                             \<and> path_exists root (sub @ [marker])) (glob2 root) of
           [] \<Rightarrow> None
         | sub # _ \<Rightarrow> Some sub))"

section \<open>Python strings and integers\<close>

text \<open>
  Strings are lists of bytes; the program's strings are ASCII (version tags, names,
  answers typed at a prompt). Decimal digits and white space outside ASCII are outside
  the model, and so is the interpreter's limit on the number of digits \<^verbatim>\<open>int()\<close> accepts.
\<close>

definition is_digit :: "char \<Rightarrow> bool" where
  "is_digit c = (CHR ''0'' \<le> c \<and> c \<le> CHR ''9'')"

definition digit_val :: "char \<Rightarrow> nat" where
  "digit_val c = of_char c - 48"

text \<open>The white space \<^verbatim>\<open>int()\<close> skips at both ends of an ASCII string, and the
  larger set \<^verbatim>\<open>str.strip()\<close> removes.\<close>

definition int_space :: "char \<Rightarrow> bool" where
  "int_space c = (c \<in> set [CHR 0x09, CHR 0x0A, CHR 0x0B, CHR 0x0C, CHR 0x0D, CHR 0x20])"

definition str_space :: "char \<Rightarrow> bool" where
  "str_space c = (int_space c \<or> c \<in> set [CHR 0x1C, CHR 0x1D, CHR 0x1E, CHR 0x1F])"

definition strip_by :: "(char \<Rightarrow> bool) \<Rightarrow> string \<Rightarrow> string" where
  "strip_by sp s = rev (dropWhile sp (rev (dropWhile sp s)))"

text \<open>After the first digit: more digits, each optionally preceded by one underscore.\<close>

fun digits_tail :: "nat \<Rightarrow> string \<Rightarrow> nat option" where
  "digits_tail acc [] = Some acc"
| "digits_tail acc [c] = (if is_digit c then Some (10 * acc + digit_val c) else None)"
| "digits_tail acc (c # d # ds) =
     (if is_digit c then digits_tail (10 * acc + digit_val c) (d # ds)
      else if c = CHR ''_'' \<and> is_digit d then digits_tail (10 * acc + digit_val d) ds
      else None)"

text \<open>\<^verbatim>\<open>int(s)\<close> for a string, base ten; \<open>None\<close> is \<^verbatim>\<open>ValueError\<close>.\<close>

definition py_int :: "string \<Rightarrow> int option" where
  "py_int s =
     (case strip_by int_space s of
        [] \<Rightarrow> None
      | c # cs \<Rightarrow>
          (let body = (if c = CHR ''+'' \<or> c = CHR ''-'' then cs else c # cs) in
           case body of
             [] \<Rightarrow> None
           | d # ds \<Rightarrow>
               if is_digit d then
                 (case digits_tail (digit_val d) ds of
                    None \<Rightarrow> None
                  | Some n \<Rightarrow> Some (if c = CHR ''-'' then - int n else int n))
               else None))"

text \<open>\<^verbatim>\<open>str(i)\<close> for a non-negative integer.\<close>

fun str_nat :: "nat \<Rightarrow> string" where
  "str_nat n = (if n < 10 then [char_of (48 + n)]
                else str_nat (n div 10) @ [char_of (48 + n mod 10)])"

text \<open>\<^verbatim>\<open>str.lower()\<close> on ASCII.\<close>

definition py_lower :: "string \<Rightarrow> string" where
  "py_lower s = map (\<lambda>c. if CHR ''A'' \<le> c \<and> c \<le> CHR ''Z''
                          then char_of (of_char c + (32::nat)) else c) s"

text \<open>\<^verbatim>\<open>sub in s\<close> for strings.\<close>

fun contains :: "string \<Rightarrow> string \<Rightarrow> bool" where
  "contains sub [] = (sub = [])"
| "contains sub (c # cs) = (take (length sub) (c # cs) = sub \<or> contains sub cs)"

text \<open>\<^verbatim>\<open>re.split(r'[\.-]', v)\<close>: cut at every \<^verbatim>\<open>.\<close> and every \<^verbatim>\<open>-\<close>; adjacent
  separators and separators at the ends give empty parts.\<close>

fun re_split :: "string \<Rightarrow> string list" where
  "re_split [] = [[]]"
| "re_split (c # cs) =
     (if c = CHR ''.'' \<or> c = CHR ''-'' then [] # re_split cs
      else (case re_split cs of [] \<Rightarrow> [[c]] | p # ps \<Rightarrow> (c # p) # ps))"

section \<open>Listing\<close>

text \<open>
  The elements of the tuple \<^verbatim>\<open>version_key\<close> builds (lines 205-212): a Python integer
  or \<^verbatim>\<open>float('inf')\<close>. Python compares them as numbers: integers among themselves,
  every integer below infinity, infinity equal to itself.
\<close>

datatype key_part = IntPart int | FloatInf

instantiation key_part :: linorder
begin

definition less_eq_key_part :: "key_part \<Rightarrow> key_part \<Rightarrow> bool" where
  "less_eq_key_part a b =
     (case b of FloatInf \<Rightarrow> True
              | IntPart j \<Rightarrow> (case a of IntPart i \<Rightarrow> i \<le> j | FloatInf \<Rightarrow> False))"

definition less_key_part :: "key_part \<Rightarrow> key_part \<Rightarrow> bool" where
  "less_key_part a b = (a \<le> b \<and> \<not> b \<le> (a::key_part))"

instance
  by standard (auto simp: less_eq_key_part_def less_key_part_def split: key_part.splits)

end

text \<open>Tuples compare lexicographically, a proper prefix before its extensions: the order
  of lists.\<close>

definition version_key :: "string \<Rightarrow> key_part list" where
  "version_key v =
     map (\<lambda>part. case py_int part of Some i \<Rightarrow> IntPart i | None \<Rightarrow> FloatInf) (re_split v)"

text \<open>\<^verbatim>\<open>envs_by_version\<close> (lines 59-68): the dictionary, in insertion order, from the
  name of every directory entry of the root to those of its entries that hold the marker.\<close>

definition envs_by_version :: "entries \<Rightarrow> (string \<times> path list) list" where
  "envs_by_version root =
     map (\<lambda>ver_dir. (path_name ver_dir,
                      filter (\<lambda>p. path_exists root (p @ [marker])) (iterdir root ver_dir)))
         (filter (is_dir root) (iterdir root []))"

text \<open>\<^verbatim>\<open>sorted(envs.keys(), key=version_key)\<close>: \<^verbatim>\<open>sorted\<close> is stable, as \<open>sort_key\<close> is.\<close>

definition sorted_versions :: "entries \<Rightarrow> string list" where
  "sorted_versions root = sort_key version_key (map fst (envs_by_version root))"

text \<open>What the second half of \<^verbatim>\<open>cmd_list\<close> (lines 215-220) walks through: the version
  tags in sorted order, those with an empty list skipped, each with the names of its
  environments sorted as strings. \<^verbatim>\<open>envs[ver]\<close> cannot miss, \<open>ver\<close> being a key.\<close>

definition listing :: "entries \<Rightarrow> (string \<times> string list) list" where
  "listing root =
     (let envs = envs_by_version root in
      concat (map (\<lambda>ver.
          (case map_of envs ver of
             None \<Rightarrow> []
           | Some env_list \<Rightarrow>
               if env_list = [] then []
               else [(ver, map path_name (sort_key path_name env_list))]))
        (sort_key version_key (map fst envs))))"

section \<open>The process and its surroundings\<close>

text \<open>
  What a command can see and change: the directory tree, standard input (whether it is
  a terminal, and what will ever arrive on it), standard output, and the shells it
  spawns. \<^verbatim>\<open>input()\<close> on a stream on which nothing more arrives and which stays open
  waits forever; on a closed stream it raises \<^verbatim>\<open>EOFError\<close>; Ctrl+C raises
  \<^verbatim>\<open>KeyboardInterrupt\<close>.
\<close>

datatype input_event = Line string | EndOfFile | Interrupt

datatype exn =
    EOFError | KeyboardInterrupt | IndexError
  | FileExistsError | FileNotFoundError | NotADirectoryError

record world =
  fs :: entries
  stdin_isatty :: bool
  stdin :: "input_event list"
  stdout_isatty :: bool
  stdout :: "string list"
  spawned :: "string list list"

text \<open>How a command ends: it returns to \<^verbatim>\<open>main\<close>, it calls \<^verbatim>\<open>sys.exit\<close> with a
  message, an exception escapes it, or it waits for input that never comes.\<close>

datatype outcome = Returned | SysExit string | Uncaught exn | Blocked

text \<open>The exit status of the process: \<^verbatim>\<open>sys.exit\<close> with a string prints it and exits
  with 1; \<^verbatim>\<open>main\<close> turns \<^verbatim>\<open>KeyboardInterrupt\<close> into exit status 1 and any other
  exception ends the interpreter with status 1. A blocked process has none.\<close>

fun exit_code :: "outcome \<Rightarrow> nat option" where
  "exit_code Returned = Some 0"
| "exit_code (SysExit msg) = Some 1"
| "exit_code (Uncaught e) = Some 1"
| "exit_code Blocked = None"

datatype 'a result = Value 'a | Raise exn | Hang

definition print :: "string \<Rightarrow> world \<Rightarrow> world" where
  "print s w = w\<lparr>stdout := stdout w @ [s]\<rparr>"

text \<open>\<^verbatim>\<open>input(prompt)\<close>: writes the prompt, then takes the next event from standard
  input.\<close>

definition py_input :: "string \<Rightarrow> world \<Rightarrow> string result \<times> world" where
  "py_input prompt w =
     (let w1 = (if prompt = [] then w else print prompt w) in
      case stdin w1 of
        [] \<Rightarrow> (Hang, w1)
      | Line s # rest \<Rightarrow> (Value s, w1\<lparr>stdin := rest\<rparr>)
      | EndOfFile # rest \<Rightarrow> (Raise EOFError, w1\<lparr>stdin := rest\<rparr>)
      | Interrupt # rest \<Rightarrow> (Raise KeyboardInterrupt, w1\<lparr>stdin := rest\<rparr>))"

text \<open>The outcome of \<^verbatim>\<open>run(cmd)\<close> (lines 32-34): the subprocess's return code and
  output, or the exception \<^verbatim>\<open>subprocess.run\<close> raised.\<close>

datatype run_result = RunReturned int string | RunRaised string

text \<open>
  The machine the tool runs on, and its collaborators: the text of \<^verbatim>\<open>ENV_ROOT\<close>,
  whether \<^verbatim>\<open>os.name\<close> is \<^verbatim>\<open>"nt"\<close>, what \<^verbatim>\<open>installed_pythons()\<close> returns (a dictionary,
  in insertion order), the lines of \<^verbatim>\<open>~/.zaprc\<close> if it exists, and what running a command
  does: its result and the directory tree it leaves.
\<close>

record host =
  env_root :: string
  nt :: bool
  pythons :: "(string \<times> string) list"
  zaprc :: "string list option"
  run :: "string list \<Rightarrow> entries \<Rightarrow> run_result \<times> entries"

definition str_path :: "host \<Rightarrow> path \<Rightarrow> string" where
  "str_path h p =
     env_root h @ concat (map (\<lambda>c. (if nt h then [CHR 0x5C] else ''/'') @ c) p)"

text \<open>\<^verbatim>\<open>activate_cmd\<close> (lines 124-127).\<close>

definition activate_cmd :: "host \<Rightarrow> path \<Rightarrow> string" where
  "activate_cmd h env_dir =
     (if nt h then ''& '' @ str_path h env_dir @ [CHR 0x5C] @ ''Scripts'' @ [CHR 0x5C] @ ''Activate.ps1''
      else ''source '' @ str_path h env_dir @ ''/bin/activate'')"

text \<open>\<^verbatim>\<open>get_default_version\<close> (lines 134-141): the first line that starts with
  \<^verbatim>\<open>default_version=\<close>, stripped, after its first \<^verbatim>\<open>=\<close>.\<close>

definition get_default_version :: "host \<Rightarrow> string option" where
  "get_default_version h =
     (case zaprc h of
        None \<Rightarrow> None
      | Some lines \<Rightarrow>
          (case filter (\<lambda>line. take 16 line = ''default_version='') lines of
             [] \<Rightarrow> None
           | line # _ \<Rightarrow> Some (drop 16 (strip_by str_space line))))"

section \<open>Choosing among several environments of one name\<close>

text \<open>
  \<^verbatim>\<open>select_environment\<close> (lines 149-191). The result is the selected pair, or \<open>None\<close>
  where the source returns \<^verbatim>\<open>None\<close>. \<^verbatim>\<open>KeyboardInterrupt\<close> is caught here; \<^verbatim>\<open>EOFError\<close>
  is not. \<^verbatim>\<open>matching_envs[0][0]\<close> raises \<^verbatim>\<open>IndexError\<close> on an empty list.
  \<open>guidance\<close> is the line of line 188 that tells the user to name the version.
\<close>

definition guidance :: "string \<Rightarrow> string \<Rightarrow> string" where
  "guidance action_name name =
     ''  zap '' @ action_name @ '' '' @ name @ '' --version VERSION''"

definition menu_lines :: "(string \<times> path) list \<Rightarrow> string list" where
  "menu_lines matching_envs =
     map (\<lambda>(i, (ver, _)). ''  '' @ str_nat i @ ''. Python '' @ ver)
         (zip [1 ..< Suc (length matching_envs)] matching_envs)"

definition select_environment ::
    "(string \<times> path) list \<Rightarrow> string \<Rightarrow> string \<Rightarrow> world
     \<Rightarrow> (string \<times> path) option result \<times> world" where
  "select_environment matching_envs name action_name w =
     (let w1 = print (''Multiple environments named '' @ [CHR 0x27] @ name @ [CHR 0x27] @ '' found:'') w;
          w2 = foldl (\<lambda>w l. print l w) w1 (menu_lines matching_envs)
      in
      if stdin_isatty w2 then
        (let w3 = print ([CHR 0x0A] @ ''Select an environment to '' @ action_name
                           @ '' (or Ctrl+C to cancel): '') w2 in
         case py_input [] w3 of
           (Hang, w4) \<Rightarrow> (Hang, w4)
         | (Raise e, w4) \<Rightarrow>
             if e = KeyboardInterrupt
             then (Value None, print ([CHR 0x0A] @ ''Operation cancelled.'') w4)
             else (Raise e, w4)
         | (Value choice, w4) \<Rightarrow>
             (case py_int choice of
                None \<Rightarrow> (Value None, print ''Invalid input. Please enter a number.'' w4)
              | Some n \<Rightarrow>
                  (let choice_idx = n - 1 in
                   if 0 \<le> choice_idx \<and> choice_idx < int (length matching_envs) then
                     (let sel = matching_envs ! nat choice_idx in
                      (Value (Some sel), print (''Selected: Python '' @ fst sel) w4))
                   else
                     (Value None,
                      print (''Invalid selection. Please choose a number between 1 and ''
                             @ str_nat (length matching_envs) @ ''.'') w4))))
      else
        (let w3 = print ([CHR 0x0A] @ ''Please specify a version with --version or use the full command:'') w2;
             w4 = print (guidance action_name name) w3;
             w5 = print ([CHR 0x0A] @ ''For example:'') w4
         in
         case matching_envs of
           [] \<Rightarrow> (Raise IndexError, w5)
         | (ver, _) # _ \<Rightarrow>
             (Value None,
              print (''  zap '' @ action_name @ '' '' @ name @ '' --version '' @ ver) w5)))"

section \<open>Resolving a name, as delete and activate do\<close>

text \<open>
  \<^verbatim>\<open>cmd_delete\<close> (lines 264-286) and \<^verbatim>\<open>cmd_activate\<close> (lines 294-316) begin with the
  same code, word for word but for the action name. Its first part classifies what the
  name and the optional version tag resolve to: with a version tag, \<^verbatim>\<open>env_path\<close> decides;
  without, the length of \<^verbatim>\<open>find_envs_by_name(name)\<close> does.
\<close>

datatype resolution =
    NotFound
  | SingleMatch string path
  | MultipleMatches "(string \<times> path) list"

definition resolve :: "entries \<Rightarrow> string \<Rightarrow> string option \<Rightarrow> resolution" where
  "resolve root name version =
     (if truthy version then
        (case env_path root name version of
           None \<Rightarrow> NotFound
         | Some env_dir \<Rightarrow> SingleMatch (the version) env_dir)
      else
        (let matching_envs = find_envs_by_name root name True in
         if matching_envs = [] then NotFound
         else if length matching_envs > 1 then MultipleMatches matching_envs
         else SingleMatch (fst (hd matching_envs)) (snd (hd matching_envs))))"

text \<open>The failure of both commands when nothing is found: \<^verbatim>\<open>sys.exit\<close> with the name
  and, when a version tag was given, the tag.\<close>

definition environment_not_found :: "string \<Rightarrow> string \<Rightarrow> outcome" where
  "environment_not_found name version_msg =
     SysExit (''[!] No environment named '' @ [CHR 0x27] @ name @ [CHR 0x27] @ version_msg)"

text \<open>Its second part acts on the class: exit with a message, ask the user to choose,
  or go on with the one environment. \<open>Inl\<close> ends the command, \<open>Inr\<close> is \<open>env_dir\<close>.\<close>

definition locate :: "string \<Rightarrow> string \<Rightarrow> string option \<Rightarrow> world \<Rightarrow> (outcome + path) \<times> world" where
  "locate action_name name version w =
     (case resolve (fs w) name version of
        NotFound \<Rightarrow>
          (if truthy version
           then (Inl (environment_not_found name ('' with Python '' @ the version)), w)
           else (Inl (environment_not_found name []), w))
      | MultipleMatches matching_envs \<Rightarrow>
          (case select_environment matching_envs name action_name w of
             (Hang, w') \<Rightarrow> (Inl Blocked, w')
           | (Raise e, w') \<Rightarrow> (Inl (Uncaught e), w')
           | (Value None, w') \<Rightarrow> (Inl Returned, w')
           | (Value (Some sel), w') \<Rightarrow> (Inr (snd sel), w'))
      | SingleMatch ver env_dir \<Rightarrow>
          (if truthy version then (Inr env_dir, w)
           else (Inr env_dir, print (''Using Python '' @ ver @ '' environment.'') w)))"

section \<open>Changing the directory tree\<close>

text \<open>\<^verbatim>\<open>Path.mkdir(parents=True, exist_ok=True)\<close>: missing directories are created (where
  a new entry appears in the directory order is up to the file system; here, at the end),
  existing ones are kept, and a regular file in the way is an error.\<close>

fun mkdir_p :: "entries \<Rightarrow> path \<Rightarrow> exn + entries" where
  "mkdir_p es [] = Inr es"
| "mkdir_p es (c # cs) =
     (case map_of es c of
        None \<Rightarrow>
          (case mkdir_p [] cs of Inl e \<Rightarrow> Inl e | Inr ds \<Rightarrow> Inr (es @ [(c, Dir ds)]))
      | Some (File d) \<Rightarrow> Inl (if cs = [] then FileExistsError else NotADirectoryError)
      | Some (Dir ds) \<Rightarrow>
          (case mkdir_p ds cs of
             Inl e \<Rightarrow> Inl e
           | Inr ds' \<Rightarrow> Inr (map (\<lambda>e. if fst e = c then (c, Dir ds') else e) es)))"

text \<open>\<^verbatim>\<open>shutil.rmtree(path)\<close> raises on a path that is missing or not a directory;
  with \<^verbatim>\<open>ignore_errors=True\<close> it does nothing there.\<close>

definition rmtree :: "entries \<Rightarrow> path \<Rightarrow> exn + entries" where
  "rmtree es p =
     (if is_dir es p then Inr (remove_tree es p)
      else if path_exists es p then Inl NotADirectoryError
      else Inl FileNotFoundError)"

definition rmtree_ignore_errors :: "entries \<Rightarrow> path \<Rightarrow> entries" where
  "rmtree_ignore_errors es p = (case rmtree es p of Inl e \<Rightarrow> es | Inr es' \<Rightarrow> es')"

section \<open>The commands\<close>

text \<open>\<^verbatim>\<open>cmd_list\<close> (lines 194-221).\<close>

definition ljust9 :: "string \<Rightarrow> string" where
  "ljust9 s = s @ replicate (9 - length s) CHR '' ''"

definition cmd_list :: "host \<Rightarrow> world \<Rightarrow> outcome \<times> world" where
  "cmd_list h w =
     (let w1 = print ([CHR 0x0A] @ ''>> Available Python interpreters:'') w;
          w2 = foldl (\<lambda>w (ver, exe). print (''  '' @ ljust9 ver @ '' -> '' @ exe) w) w1 (pythons h);
          w3 = print ([CHR 0x0A] @ ''>> Virtual environments in '' @ env_root h @ '':'') w2;
          w4 = foldl (\<lambda>w (ver, names).
                  foldl (\<lambda>w n. print (''    * '' @ n) w) (print (''  Python '' @ ver) w) names)
                w3 (listing (fs w3))
      in (Returned, print [] w4))"

text \<open>The failures of the commands, under the names the specification gives them. Each
  is a call of \<^verbatim>\<open>sys.exit\<close> with a message.\<close>

definition no_version_specified :: outcome where
  "no_version_specified =
     SysExit (''[!] No Python version specified and no default set. Use ''
              @ [CHR 0x27] @ ''zap set-default <version>'' @ [CHR 0x27]
              @ '' or specify a version.'')"

definition interpreter_not_found :: "string \<Rightarrow> outcome" where
  "interpreter_not_found version =
     SysExit (''[!] Python '' @ version @ '' not found. Run `zap list` first.'')"

definition already_exists :: "string \<Rightarrow> outcome" where
  "already_exists name = SysExit (''[!] Environment '' @ name @ '' already exists.'')"

definition creation_failed :: "string \<Rightarrow> outcome" where
  "creation_failed details = SysExit details"

text \<open>
  \<^verbatim>\<open>cmd_create\<close> (lines 223-261). \<^verbatim>\<open>sys.exit\<close> inside the \<^verbatim>\<open>try\<close> is not caught
  by \<^verbatim>\<open>except Exception\<close>. Both calls of \<^verbatim>\<open>run\<close> start a subprocess, which may change
  the directory tree. \<open>probe_cmd\<close> is the command of line 244 that asks the interpreter
  whether it is 3.12 or later, \<open>venv_cmd\<close> the list \<^verbatim>\<open>venv_cmd\<close> as lines 240-251 build it:
  \<^verbatim>\<open>--upgrade-deps\<close> is added when the probe printed \<^verbatim>\<open>True\<close>, and left out when the
  probe raised.
\<close>

definition probe_cmd :: "string \<Rightarrow> string list" where
  "probe_cmd python_exe =
     [python_exe, ''-c'', ''import sys; print(sys.version_info >= (3, 12))'']"

definition venv_cmd :: "host \<Rightarrow> string \<Rightarrow> path \<Rightarrow> run_result \<Rightarrow> string list" where
  "venv_cmd h python_exe env_dir probe =
     [python_exe, ''-m'', ''venv'']
     @ (case probe of
          RunReturned rc out \<Rightarrow> if contains ''True'' out then [''--upgrade-deps''] else []
        | RunRaised e \<Rightarrow> [])
     @ [str_path h env_dir]"

definition cmd_create :: "host \<Rightarrow> string option \<Rightarrow> string \<Rightarrow> world \<Rightarrow> outcome \<times> world" where
  "cmd_create h version_arg name w =
     (let version = (if version_arg = None then get_default_version h else version_arg) in
      if version_arg = None \<and> \<not> truthy version then
        (no_version_specified, w)
      else
        (let ver = the version in
         case map_of (pythons h) ver of
           None \<Rightarrow> (interpreter_not_found ver, w)
         | Some python_exe \<Rightarrow>
             (let env_dir = [ver, name] in
              if path_exists (fs w) env_dir then
                (already_exists name, w)
              else
                (case mkdir_p (fs w) [ver] of
                   Inl e \<Rightarrow> (Uncaught e, w)
                 | Inr fs1 \<Rightarrow>
                     (let w1 = print (''Creating venv at '' @ str_path h env_dir @ '' using ''
                                      @ python_exe @ '' ...'') (w\<lparr>fs := fs1\<rparr>);
                          (probe, fs2) = run h (probe_cmd python_exe) (fs w1);
                          (made, fs3) = run h (venv_cmd h python_exe env_dir probe) fs2
                      in
                      case made of
                        RunReturned rc out \<Rightarrow>
                          if rc \<noteq> 0
                          then (creation_failed out,
                                w1\<lparr>fs := rmtree_ignore_errors fs3 env_dir\<rparr>)
                          else (Returned, print ''Success!'' (w1\<lparr>fs := fs3\<rparr>))
                      | RunRaised e \<Rightarrow>
                          (creation_failed (''Error creating environment: '' @ e),
                           w1\<lparr>fs := rmtree_ignore_errors fs3 env_dir\<rparr>))))))"

text \<open>
  \<^verbatim>\<open>cmd_delete\<close> (lines 263-291). \<^verbatim>\<open>not args.yes and input(...)\<close> reads standard
  input only when the flag is not set.
\<close>

definition delete_tree :: "path \<Rightarrow> world \<Rightarrow> outcome \<times> world" where
  "delete_tree env_dir w =
     (case rmtree (fs w) env_dir of
        Inl e \<Rightarrow> (Uncaught e, w)
      | Inr fs' \<Rightarrow> (Returned, print ''Done.'' (w\<lparr>fs := fs'\<rparr>)))"

definition confirm_prompt :: "host \<Rightarrow> path \<Rightarrow> string" where
  "confirm_prompt h env_dir = ''Delete '' @ str_path h env_dir @ ''? [y/N] ''"

definition cmd_delete :: "host \<Rightarrow> string \<Rightarrow> string option \<Rightarrow> bool \<Rightarrow> world \<Rightarrow> outcome \<times> world" where
  "cmd_delete h name version yes w =
     (case locate ''delete'' name version w of
        (Inl oc, w1) \<Rightarrow> (oc, w1)
      | (Inr env_dir, w1) \<Rightarrow>
          if \<not> yes then
            (case py_input (confirm_prompt h env_dir) w1 of
               (Hang, w2) \<Rightarrow> (Blocked, w2)
             | (Raise e, w2) \<Rightarrow> (Uncaught e, w2)
             | (Value answer, w2) \<Rightarrow>
                 if py_lower answer \<noteq> ''y'' then (Returned, w2) else delete_tree env_dir w2)
          else delete_tree env_dir w1)"

text \<open>
  \<^verbatim>\<open>cmd_activate\<close> (lines 293-338). A \<^verbatim>\<open>Path\<close> is always true, so the test in line 318
  never fires. The shell a flag asks for is recorded, not run.
\<close>

definition spawn_shell :: "host \<Rightarrow> string \<Rightarrow> world \<Rightarrow> world" where
  "spawn_shell h cmd w =
     w\<lparr>spawned := spawned w @
          [if nt h then [''powershell'', ''-NoExit'', cmd]
           else [''bash'', ''-c'', cmd @ ''; exec bash'']]\<rparr>"

definition cmd_activate ::
    "host \<Rightarrow> string \<Rightarrow> string option \<Rightarrow> bool \<Rightarrow> bool \<Rightarrow> world \<Rightarrow> outcome \<times> world" where
  "cmd_activate h name version shell interactive w =
     (case locate ''activate'' name version w of
        (Inl oc, w1) \<Rightarrow> (oc, w1)
      | (Inr env_dir, w1) \<Rightarrow>
          (let cmd = activate_cmd h env_dir;
               w2 = print cmd w1
           in
           if shell then (Returned, spawn_shell h cmd w2)
           else if stdout_isatty w2 \<and> interactive
           then (Returned, spawn_shell h cmd (print ([CHR 0x0A] @ ''Activating environment...'') w2))
           else (Returned, w2)))"

section \<open>What the specification calls an environment\<close>

text \<open>The specification's \<open>environmentExists(versionTag, name)\<close>, in its words: the
  directory \<^verbatim>\<open>ROOT/versionTag/name\<close> exists and contains the marker file.\<close>

definition environment_exists :: "entries \<Rightarrow> string \<Rightarrow> string \<Rightarrow> bool" where
  "environment_exists es ver name =
     (case map_of es ver of
        Some (Dir vs) \<Rightarrow>
          (case map_of vs name of
             Some (Dir xs) \<Rightarrow> marker \<in> set (map fst xs)
           | _ \<Rightarrow> False)
      | _ \<Rightarrow> False)"

section \<open>Auxiliary notions and sample registries\<close>

text \<open>The test the loop of \<^verbatim>\<open>find_envs_by_name\<close> applies to one entry of the root.\<close>

definition env_at :: "entries \<Rightarrow> string \<Rightarrow> path \<Rightarrow> bool" where
  "env_at es name ver_dir =
     (is_dir es ver_dir \<and> path_exists es (ver_dir @ [name])
      \<and> path_exists es (ver_dir @ [name] @ [marker]))"

text \<open>A registry with the environment \<open>alpha\<close> under three version tags, a stray file
  in the root and a directory without marker.\<close>

definition example_root :: entries where
  "example_root =
     [(''3.9'', Dir [(''alpha'', Dir [(''pyvenv.cfg'', File []), (''bin'', Dir [])]),
                     (''junk'', Dir [])]),
      (''notes.txt'', File ''x''),
      (''3.11'', Dir [(''alpha'', Dir [(''pyvenv.cfg'', File [])]),
                      (''beta'', Dir [(''pyvenv.cfg'', File [])])]),
      (''3.10'', Dir [(''alpha'', Dir [(''pyvenv.cfg'', File [])])])]"

text \<open>The names of the entries of a version directory.\<close>

definition children :: "entries \<Rightarrow> string \<Rightarrow> string list" where
  "children es v = (case map_of es v of Some (Dir ds) \<Rightarrow> map fst ds | _ \<Rightarrow> [])"

text \<open>A registry with \<open>alpha\<close> complete under two version tags and half built under a
  third.\<close>

definition example_two :: entries where
  "example_two =
     [(''3.11'', Dir [(''alpha'', Dir [(''pyvenv.cfg'', File [])])]),
      (''3.9'', Dir [(''alpha'', Dir [(''README'', File ''half built'')])]),
      (''3.10'', Dir [(''alpha'', Dir [(''pyvenv.cfg'', File []), (''bin'', Dir [])])])]"

text \<open>A registry whose version tags are listed out of order.\<close>

definition example_tags :: entries where
  "example_tags =
     [(''3.11-arm64'', Dir [(''web'', Dir [(''pyvenv.cfg'', File [])])]),
      (''3.10'', Dir [(''web'', Dir [(''pyvenv.cfg'', File [])])]),
      (''3.9'', Dir [(''api'', Dir [(''pyvenv.cfg'', File [])])])]"

text \<open>
  The comparison of version tags in the specification's words, on the parts a tag splits
  into: part by part; two numeric parts by their integer values; a numeric part before a
  part that is not numeric. A part is numeric when \<^verbatim>\<open>int()\<close> accepts it. Where the
  specification is silent the code decides: two parts that are not numeric do not
  separate the tags, and a tag that runs out of parts first comes first.
\<close>

fun segments_before :: "string list \<Rightarrow> string list \<Rightarrow> bool" where
  "segments_before [] [] = False"
| "segments_before [] (y # ys) = True"
| "segments_before (x # xs) [] = False"
| "segments_before (x # xs) (y # ys) =
     (case (py_int x, py_int y) of
        (Some i, Some j) \<Rightarrow> i < j \<or> (i = j \<and> segments_before xs ys)
      | (Some i, None) \<Rightarrow> True
      | (None, Some j) \<Rightarrow> False
      | (None, None) \<Rightarrow> segments_before xs ys)"

text \<open>One element of the tuple \<^verbatim>\<open>version_key\<close> returns.\<close>

definition part_key :: "string \<Rightarrow> key_part" where
  "part_key part = (case py_int part of Some i \<Rightarrow> IntPart i | None \<Rightarrow> FloatInf)"

text \<open>The version tag a call of \<^verbatim>\<open>create\<close> asks for: the one on the command line, or
  else the default \<^verbatim>\<open>~/.zaprc\<close> holds. An empty default counts as none (line 227).\<close>

definition requested :: "host \<Rightarrow> string option \<Rightarrow> string \<Rightarrow> bool" where
  "requested h version_arg v =
     (version_arg = Some v
      \<or> (version_arg = None \<and> get_default_version h = Some v \<and> v \<noteq> []))"

text \<open>A host with one interpreter, 3.11, and the default version 3.12. Its probe
  succeeds; every other command fails with return code 1 after leaving a directory
  \<open>gamma\<close> without marker under \<open>3.11\<close>.\<close>

definition failing_run :: "string list \<Rightarrow> entries \<Rightarrow> run_result \<times> entries" where
  "failing_run cmd es =
     (if cmd = probe_cmd ''/usr/bin/python3.11'' then (RunReturned 0 ''True'', es)
      else (RunReturned 1 ''Error: disk full'',
            map (\<lambda>e. if fst e = ''3.11''
                      then (case snd e of
                              Dir ds \<Rightarrow> (fst e, Dir (ds @ [(''gamma'', Dir [(''bin'', Dir [])])]))
                            | File d \<Rightarrow> e)
                      else e) es))"

definition example_host :: host where
  "example_host =
     \<lparr>env_root = ''/home/u/venvs'', nt = False,
      pythons = [(''3.11'', ''/usr/bin/python3.11'')],
      zaprc = Some [''default_version=3.12'' @ [CHR 0x0A]],
      run = failing_run\<rparr>"

definition example_world :: "entries \<Rightarrow> bool \<Rightarrow> input_event list \<Rightarrow> world" where
  "example_world es tty feed =
     \<lparr>fs = es, stdin_isatty = tty, stdin = feed, stdout_isatty = tty, stdout = [],
      spawned = []\<rparr>"

text \<open>The sample registry as the failing creation of \<open>gamma\<close> leaves it.\<close>

definition example_half_built :: entries where
  "example_half_built =
     [(''3.9'', Dir [(''alpha'', Dir [(''pyvenv.cfg'', File []), (''bin'', Dir [])]),
                     (''junk'', Dir [])]),
      (''notes.txt'', File ''x''),
      (''3.11'', Dir [(''alpha'', Dir [(''pyvenv.cfg'', File [])]),
                      (''beta'', Dir [(''pyvenv.cfg'', File [])]),
                      (''gamma'', Dir [(''bin'', Dir [])])]),
      (''3.10'', Dir [(''alpha'', Dir [(''pyvenv.cfg'', File [])])])]"

text \<open>The selections the menu accepts (lines 171-172): \<^verbatim>\<open>int(choice)\<close> succeeds and
  \<^verbatim>\<open>0 <= int(choice) - 1 < len(matching_envs)\<close>.\<close>

definition valid_choice :: "(string \<times> path) list \<Rightarrow> string \<Rightarrow> bool" where
  "valid_choice matching_envs choice =
     (case py_int choice of
        None \<Rightarrow> False
      | Some n \<Rightarrow> 0 \<le> n - 1 \<and> n - 1 < int (length matching_envs))"

section \<open>The resolver's loop\<close>

lemma find_loop_all:
  "find_loop es name True vs acc =
     acc @ map (\<lambda>v. (path_name v, v @ [name])) (filter (env_at es name) vs)"
  by (induction vs arbitrary: acc) (auto simp: env_at_def Let_def)

lemma find_loop_early:
  "length acc \<le> 1 \<Longrightarrow> find_loop es name False vs acc =
     take 2 (acc @ map (\<lambda>v. (path_name v, v @ [name])) (filter (env_at es name) vs))"
proof (induction vs arbitrary: acc)
  case Nil
  then show ?case by simp
next
  case (Cons v vs)
  show ?case
  proof (cases "env_at es name v")
    case False
    then show ?thesis using Cons by (auto simp: env_at_def Let_def)
  next
    case True
    show ?thesis
    proof (cases "length acc = 1")
      case True
      with \<open>env_at es name v\<close> show ?thesis by (auto simp: env_at_def Let_def)
    next
      case False
      with Cons.prems have "acc = []" by (cases acc) auto
      with \<open>env_at es name v\<close> Cons.IH[of "[(path_name v, v @ [name])]"] show ?thesis
        by (auto simp: env_at_def Let_def)
    qed
  qed
qed

lemma find_early_take:
  "find_envs_by_name es name False = take 2 (find_envs_by_name es name True)"
  by (simp add: find_envs_by_name_def find_loop_early find_loop_all)

text \<open>
  Claim C10. For every name and every registry, the scan that stops after two matches
  (\<open>find_all = False\<close>) and the full scan (\<open>find_all = True\<close>) agree on the class of
  the result: one is empty exactly when the other is, one is a single pair exactly when
  the other is that same pair, and one has two or more matches exactly when the other
  has. The early scan returns the first two matches of the full scan.
\<close>

theorem find_envs_by_name_early_agrees:
  "(find_envs_by_name es name False = [] \<longleftrightarrow> find_envs_by_name es name True = [])
   \<and> (find_envs_by_name es name True = [m] \<longleftrightarrow> find_envs_by_name es name False = [m])
   \<and> (length (find_envs_by_name es name False) \<ge> 2
        \<longleftrightarrow> length (find_envs_by_name es name True) \<ge> 2)
   \<and> find_envs_by_name es name False = take 2 (find_envs_by_name es name True)"
proof -
  let ?all = "find_envs_by_name es name True"
  have e: "find_envs_by_name es name False = take 2 ?all" by (rule find_early_take)
  have a: "take 2 ?all = [] \<longleftrightarrow> ?all = []" by simp
  have b: "?all = [m] \<longleftrightarrow> take 2 ?all = [m]"
    by (cases ?all; cases "tl ?all") auto
  have c: "length (take 2 ?all) \<ge> 2 \<longleftrightarrow> length ?all \<ge> 2" by simp
  show ?thesis unfolding e using a b c by blast
qed

theorem find_envs_by_name_early_agrees_witness:
  "length (find_envs_by_name example_root ''alpha'' True) = 3
   \<and> length (find_envs_by_name example_root ''alpha'' False) = 2
   \<and> find_envs_by_name example_root ''alpha'' False
       = [(''3.9'', [''3.9'', ''alpha'']), (''3.11'', [''3.11'', ''alpha''])]"
proof -
  have a: "find_envs_by_name example_root ''alpha'' True =
     [(''3.9'', [''3.9'', ''alpha'']), (''3.11'', [''3.11'', ''alpha'']),
      (''3.10'', [''3.10'', ''alpha''])]"
    by code_simp
  from find_envs_by_name_early_agrees [of example_root "''alpha''" "(''3.9'', [''3.9'', ''alpha''])"]
  have b: "find_envs_by_name example_root ''alpha'' False
             = take 2 (find_envs_by_name example_root ''alpha'' True)"
    by blast
  show ?thesis unfolding b a by simp
qed

section \<open>What the resolver and the listing take for an environment\<close>

lemma iterdir_root: "iterdir es [] = map (\<lambda>n. [n]) (map fst es)"
  by (simp add: iterdir_def)

lemma is_dir_top: "is_dir es [v] \<longleftrightarrow> (\<exists>ds. map_of es v = Some (Dir ds))"
  by (auto simp: is_dir_def split: option.splits node.splits)

lemma in_names_iff: "k \<in> set (map fst xs) \<longleftrightarrow> (\<exists>y. map_of xs k = Some y)"
  using map_of_eq_None_iff[of xs k] by auto

lemma has_marker_iff:
  "path_exists es [v, name, marker] \<longleftrightarrow> environment_exists es v name"
  unfolding path_exists_def environment_exists_def in_names_iff
  by (auto split: option.splits node.splits)

lemma env_at_iff: "env_at es name [v] \<longleftrightarrow> environment_exists es v name"
proof -
  have "environment_exists es v name \<Longrightarrow> is_dir es [v] \<and> path_exists es [v, name]"
    by (auto simp: is_dir_def path_exists_def environment_exists_def
        split: option.splits node.splits)
  then show ?thesis using has_marker_iff[of es v name] by (auto simp: env_at_def)
qed

lemma find_all_filter:
  "find_envs_by_name es name True =
     map (\<lambda>v. (v, [v, name])) (filter (\<lambda>v. environment_exists es v name) (map fst es))"
  by (simp add: find_envs_by_name_def find_loop_all iterdir_root filter_map comp_def
      env_at_iff path_name_def)

lemma env_path_version:
  "v \<noteq> [] \<Longrightarrow> env_path es name (Some v) =
     (if environment_exists es v name then Some [v, name] else None)"
proof -
  have "environment_exists es v name \<Longrightarrow> is_dir es [v, name]"
    by (auto simp: is_dir_def environment_exists_def split: option.splits node.splits)
  then show "v \<noteq> [] \<Longrightarrow> ?thesis"
    using has_marker_iff[of es v name] by (auto simp: env_path_def truthy_def)
qed

lemma environment_exists_cong:
  "map_of es' v = map_of es v \<Longrightarrow> environment_exists es' v name = environment_exists es v name"
  by (simp add: environment_exists_def)

text \<open>
  Claim C1. Let the version tags under which \<open>name\<close> is an environment (its directory
  exists and holds the marker) be, in the order the root lists them, exactly \<open>v1\<close> and
  then \<open>v2\<close>. The two tags differ; resolving \<open>name\<close> without a version tag gives
  \<open>MultipleMatches\<close> with exactly the two pairs, in that order; resolving it with
  either tag gives \<open>SingleMatch\<close> of that tag's environment alone, and gives the same
  in every registry that has the same entry for that tag, whatever its other entries are:
  the other version tags are not consulted.
\<close>

theorem resolve_two_version_tags:
  assumes wf: "wf_entries es"
    and two: "filter (\<lambda>v. environment_exists es v name) (map fst es) = [v1, v2]"
  shows "v1 \<noteq> v2
    \<and> find_envs_by_name es name True = [(v1, [v1, name]), (v2, [v2, name])]
    \<and> resolve es name None = MultipleMatches [(v1, [v1, name]), (v2, [v2, name])]
    \<and> resolve es name (Some v1) = SingleMatch v1 [v1, name]
    \<and> resolve es name (Some v2) = SingleMatch v2 [v2, name]
    \<and> (\<forall>es'. map_of es' v1 = map_of es v1
          \<longrightarrow> resolve es' name (Some v1) = SingleMatch v1 [v1, name])
    \<and> (\<forall>es'. map_of es' v2 = map_of es v2
          \<longrightarrow> resolve es' name (Some v2) = SingleMatch v2 [v2, name])"
proof -
  have sub: "set [v1, v2] \<subseteq> set (map fst es)"
    using two filter_is_subset[of "\<lambda>v. environment_exists es v name" "map fst es"] by simp
  have "distinct [v1, v2]"
    using two wf distinct_filter[of "map fst es" "\<lambda>v. environment_exists es v name"]
    by (simp add: wf_entries_def)
  then have ne: "v1 \<noteq> v2" by simp
  have "v1 \<in> set (map fst es)" "v2 \<in> set (map fst es)" using sub by simp_all
  then have nonempty: "v1 \<noteq> []" "v2 \<noteq> []"
    using wf unfolding wf_entries_def by blast+
  have "set [v1, v2] = {v \<in> set (map fst es). environment_exists es v name}"
    using two set_filter[of "\<lambda>v. environment_exists es v name" "map fst es"] by simp
  then have ex: "environment_exists es v1 name" "environment_exists es v2 name" by auto
  have all: "find_envs_by_name es name True = [(v1, [v1, name]), (v2, [v2, name])]"
    by (simp add: find_all_filter two)
  have none: "resolve es name None = MultipleMatches [(v1, [v1, name]), (v2, [v2, name])]"
    by (simp add: resolve_def truthy_def all)
  have one: "\<And>es' v. v \<noteq> [] \<Longrightarrow> environment_exists es' v name
               \<Longrightarrow> resolve es' name (Some v) = SingleMatch v [v, name]"
    by (simp add: resolve_def truthy_def env_path_version)
  show ?thesis
    using ne all none one nonempty ex environment_exists_cong by metis
qed

theorem resolve_two_version_tags_witness:
  "wf_entries example_two
   \<and> filter (\<lambda>v. environment_exists example_two v ''alpha'') (map fst example_two)
       = [''3.11'', ''3.10'']
   \<and> resolve example_two ''alpha'' None
       = MultipleMatches [(''3.11'', [''3.11'', ''alpha'']), (''3.10'', [''3.10'', ''alpha''])]
   \<and> resolve example_two ''alpha'' (Some ''3.10'') = SingleMatch ''3.10'' [''3.10'', ''alpha'']"
proof -
  have h1: "wf_entries example_two" by code_simp
  have h2: "filter (\<lambda>v. environment_exists example_two v ''alpha'') (map fst example_two)
              = [''3.11'', ''3.10'']" by code_simp
  show ?thesis using h1 h2 resolve_two_version_tags [OF h1 h2] by blast
qed

lemma envs_by_version_eq:
  "envs_by_version es =
     map (\<lambda>v. (v, map (\<lambda>n. [v, n]) (filter (\<lambda>n. environment_exists es v n) (children es v))))
         (filter (\<lambda>v. is_dir es [v]) (map fst es))"
proof -
  have d: "\<And>v. is_dir es [v] \<Longrightarrow> iterdir es [v] = map (\<lambda>n. [v, n]) (children es v)"
    by (auto simp: is_dir_def iterdir_def children_def split: option.splits node.splits)
  have a: "\<And>v. is_dir es [v] \<Longrightarrow>
      filter (\<lambda>p. path_exists es (p @ [marker])) (iterdir es [v])
      = map (\<lambda>n. [v, n]) (filter (\<lambda>n. environment_exists es v n) (children es v))"
    by (simp add: d filter_map comp_def has_marker_iff)
  show ?thesis
    unfolding envs_by_version_def iterdir_root
    by (auto simp: filter_map comp_def path_name_def a)
qed

lemma environment_exists_child:
  "environment_exists es v n
   \<Longrightarrow> is_dir es [v] \<and> v \<in> set (map fst es) \<and> n \<in> set (children es v)"
proof -
  assume a: "environment_exists es v n"
  then obtain vs where vs: "map_of es v = Some (Dir vs)"
    by (auto simp: environment_exists_def split: option.splits node.splits)
  with a obtain xs where xs: "map_of vs n = Some (Dir xs)"
    by (auto simp: environment_exists_def split: option.splits node.splits)
  have "n \<in> set (map fst vs)" using xs in_names_iff[of n vs] by simp
  moreover have "v \<in> set (map fst es)" using vs in_names_iff[of v es] by simp
  ultimately show ?thesis using vs by (simp add: is_dir_top children_def)
qed

lemma map_of_keyed:
  "map_of (map (\<lambda>k. (k, f k)) ks) k = (if k \<in> set ks then Some (f k) else None)"
  by (induction ks) auto

lemma listing_mem:
  "(v, names) \<in> set (listing es) \<longleftrightarrow>
     is_dir es [v] \<and> v \<in> set (map fst es)
     \<and> filter (\<lambda>n. environment_exists es v n) (children es v) \<noteq> []
     \<and> names = map path_name (sort_key path_name
          (map (\<lambda>n. [v, n]) (filter (\<lambda>n. environment_exists es v n) (children es v))))"
proof -
  let ?f = "\<lambda>v. map (\<lambda>n. [v, n]) (filter (\<lambda>n. environment_exists es v n) (children es v))"
  let ?ks = "filter (\<lambda>v. is_dir es [v]) (map fst es)"
  have keys: "map fst (envs_by_version es) = ?ks"
    by (simp add: envs_by_version_eq comp_def)
  have look: "\<And>k. map_of (envs_by_version es) k = (if k \<in> set ?ks then Some (?f k) else None)"
    unfolding envs_by_version_eq by (rule map_of_keyed)
  show ?thesis
    unfolding listing_def Let_def keys look by auto
qed

lemma listing_iff:
  "(\<exists>names. (v, names) \<in> set (listing es) \<and> name \<in> set names)
   \<longleftrightarrow> environment_exists es v name"
proof -
  let ?f = "\<lambda>v. map (\<lambda>n. [v, n]) (filter (\<lambda>n. environment_exists es v n) (children es v))"
  have nm: "set (map path_name (sort_key path_name (?f v)))
              = {n \<in> set (children es v). environment_exists es v n}"
  proof -
    have pn: "\<And>n. path_name [v, n] = n" by (simp add: path_name_def)
    have "set (map path_name (sort_key path_name (?f v))) = path_name ` set (?f v)"
      by simp
    also have "\<dots> = (\<lambda>n. path_name [v, n])
                        ` {n \<in> set (children es v). environment_exists es v n}"
      by (simp add: image_image)
    also have "\<dots> = {n \<in> set (children es v). environment_exists es v n}"
      unfolding pn by simp
    finally show ?thesis .
  qed
  show ?thesis
  proof
    assume "\<exists>names. (v, names) \<in> set (listing es) \<and> name \<in> set names"
    then obtain names where "(v, names) \<in> set (listing es)" "name \<in> set names" by blast
    then have "name \<in> set (map path_name (sort_key path_name (?f v)))"
      using listing_mem[of v names es] by simp
    then show "environment_exists es v name" unfolding nm by simp
  next
    assume e: "environment_exists es v name"
    from environment_exists_child[OF e]
    have d: "is_dir es [v]" "v \<in> set (map fst es)" "name \<in> set (children es v)" by simp_all
    have in_f: "name \<in> set (filter (\<lambda>n. environment_exists es v n) (children es v))"
      using e d by simp
    then have ne: "filter (\<lambda>n. environment_exists es v n) (children es v) \<noteq> []"
      by (metis empty_iff empty_set)
    have "(v, map path_name (sort_key path_name (?f v))) \<in> set (listing es)"
      using listing_mem[of v _ es] d ne by blast
    moreover have "name \<in> set (map path_name (sort_key path_name (?f v)))"
      unfolding nm using e d by simp
    ultimately show "\<exists>names. (v, names) \<in> set (listing es) \<and> name \<in> set names" by blast
  qed
qed

text \<open>
  Claim C4. An environment \<open>name\<close> is reported under the version tag \<open>v\<close> by the
  listing exactly when the directory \<^verbatim>\<open>ROOT/v/name\<close> exists and holds the marker; the full
  scan of the resolver counts \<open>(v, ROOT/v/name)\<close> as a match exactly then, the early
  scan counts nothing else, and the lookup with an explicit version tag finds the
  environment exactly then. A directory without the marker is neither listed nor matched.
\<close>

theorem marker_decides_environment:
  "((\<exists>names. (v, names) \<in> set (listing es) \<and> name \<in> set names)
      \<longleftrightarrow> environment_exists es v name)
   \<and> ((v, p) \<in> set (find_envs_by_name es name True)
      \<longleftrightarrow> environment_exists es v name \<and> p = [v, name])
   \<and> ((v, p) \<in> set (find_envs_by_name es name False)
      \<longrightarrow> environment_exists es v name \<and> p = [v, name])
   \<and> (v \<noteq> [] \<longrightarrow>
        (env_path es name (Some v) = Some p \<longleftrightarrow> environment_exists es v name \<and> p = [v, name]))"
proof -
  have full: "(v, p) \<in> set (find_envs_by_name es name True)
      \<longleftrightarrow> environment_exists es v name \<and> p = [v, name]"
    using environment_exists_child[of es v name] by (auto simp: find_all_filter)
  have early: "(v, p) \<in> set (find_envs_by_name es name False)
      \<Longrightarrow> (v, p) \<in> set (find_envs_by_name es name True)"
    unfolding find_early_take by (rule in_set_takeD)
  have direct: "v \<noteq> [] \<Longrightarrow>
      (env_path es name (Some v) = Some p \<longleftrightarrow> environment_exists es v name \<and> p = [v, name])"
    by (auto simp: env_path_version)
  show ?thesis using listing_iff[of v es name] full early direct by blast
qed

theorem marker_decides_environment_witness:
  "\<not> environment_exists example_two ''3.9'' ''alpha''
   \<and> is_dir example_two [''3.9'', ''alpha'']
   \<and> (''3.9'', [''3.9'', ''alpha'']) \<notin> set (find_envs_by_name example_two ''alpha'' True)
   \<and> (''3.9'', [''3.9'', ''alpha'']) \<notin> set (find_envs_by_name example_two ''alpha'' False)
   \<and> env_path example_two ''alpha'' (Some ''3.9'') \<noteq> Some [''3.9'', ''alpha'']
   \<and> \<not> (\<exists>names. (''3.9'', names) \<in> set (listing example_two) \<and> ''alpha'' \<in> set names)"
proof -
  have n: "\<not> environment_exists example_two ''3.9'' ''alpha''" by code_simp
  have d: "is_dir example_two [''3.9'', ''alpha'']" by code_simp
  have v: "''3.9'' \<noteq> []" by simp
  show ?thesis
    using n d v marker_decides_environment
      [of "''3.9''" example_two "''alpha''" "[''3.9'', ''alpha'']"]
    by blast
qed

section \<open>The order of the listing\<close>

lemma version_key_parts: "version_key v = map part_key (re_split v)"
  by (simp add: version_key_def part_key_def)

lemma key_part_less_simps:
  "IntPart i < IntPart j \<longleftrightarrow> i < j"
  "IntPart i < FloatInf"
  "\<not> FloatInf < k"
  by (auto simp: less_key_part_def less_eq_key_part_def split: key_part.splits)

lemma keys_less_iff:
  "map part_key xs < map part_key ys \<longleftrightarrow> segments_before xs ys"
  by (induction xs ys rule: segments_before.induct)
     (auto simp: part_key_def key_part_less_simps split: option.splits)

lemma listing_order:
  "map fst (listing es) = filter (\<lambda>v. \<exists>n. environment_exists es v n) (sorted_versions es)"
proof -
  let ?f = "\<lambda>v. map (\<lambda>n. [v, n]) (filter (\<lambda>n. environment_exists es v n) (children es v))"
  let ?ks = "filter (\<lambda>v. is_dir es [v]) (map fst es)"
  let ?g = "\<lambda>ver. (case map_of (envs_by_version es) ver of
             None \<Rightarrow> []
           | Some env_list \<Rightarrow>
               if env_list = [] then []
               else [(ver, map path_name (sort_key path_name env_list))])"
  have keys: "map fst (envs_by_version es) = ?ks"
    by (simp add: envs_by_version_eq comp_def)
  have look: "\<And>k. map_of (envs_by_version es) k = (if k \<in> set ?ks then Some (?f k) else None)"
    unfolding envs_by_version_eq by (rule map_of_keyed)
  have ne: "\<And>v. (filter (\<lambda>n. environment_exists es v n) (children es v) = [])
               \<longleftrightarrow> (\<forall>n. \<not> environment_exists es v n)"
    using environment_exists_child by (fastforce simp: filter_empty_conv)
  have g: "\<And>v. v \<in> set ?ks
             \<Longrightarrow> map fst (?g v) = (if \<exists>n. environment_exists es v n then [v] else [])"
    unfolding look by (simp add: ne)
  have gen: "\<And>xs. set xs \<subseteq> set ?ks \<Longrightarrow>
      map fst (concat (map ?g xs)) = filter (\<lambda>v. \<exists>n. environment_exists es v n) xs"
  proof -
    fix xs show "set xs \<subseteq> set ?ks \<Longrightarrow>
      map fst (concat (map ?g xs)) = filter (\<lambda>v. \<exists>n. environment_exists es v n) xs"
      by (induction xs) (simp_all add: g del: set_filter)
  qed
  have "set (sorted_versions es) \<subseteq> set ?ks"
    by (simp add: sorted_versions_def keys)
  from gen[OF this] show ?thesis
    by (simp add: listing_def sorted_versions_def Let_def)
qed

text \<open>
  Claim C3. The list operation walks the version directories of the registry in the
  order of their keys: the result is sorted by \<open>version_key\<close>, it is a rearrangement
  of the version directories, tags with equal keys keep their directory order, and the
  tags printed are those of that list that hold an environment. The order of the keys is
  the comparison the specification describes: split at \<open>.\<close> and \<open>-\<close>, compare part by
  part, numeric parts as integers, a part that is not numeric after every numeric one.
  So 3.9 comes before 3.10 and 3.10 before 3.11-arm64, while as strings 3.10 is below
  3.9.
\<close>

theorem list_orders_versions:
  "sorted (map version_key (sorted_versions es))
   \<and> mset (sorted_versions es) = mset (filter (\<lambda>v. is_dir es [v]) (map fst es))
   \<and> filter (\<lambda>v. version_key v = k) (sorted_versions es)
       = filter (\<lambda>v. version_key v = k) (filter (\<lambda>v. is_dir es [v]) (map fst es))
   \<and> map fst (listing es)
       = filter (\<lambda>v. \<exists>n. environment_exists es v n) (sorted_versions es)
   \<and> (version_key a < version_key b \<longleftrightarrow> segments_before (re_split a) (re_split b))
   \<and> version_key ''3.9'' < version_key ''3.10''
   \<and> version_key ''3.10'' < version_key ''3.11-arm64''
   \<and> ''3.10'' < ''3.9''"
proof -
  have keys: "map fst (envs_by_version es) = filter (\<lambda>v. is_dir es [v]) (map fst es)"
    by (simp add: envs_by_version_eq comp_def)
  have a: "sorted (map version_key (sorted_versions es))"
    by (simp add: sorted_versions_def)
  have b: "mset (sorted_versions es) = mset (filter (\<lambda>v. is_dir es [v]) (map fst es))"
    by (simp add: sorted_versions_def keys)
  have c: "filter (\<lambda>v. version_key v = k) (sorted_versions es)
       = filter (\<lambda>v. version_key v = k) (filter (\<lambda>v. is_dir es [v]) (map fst es))"
    unfolding sorted_versions_def keys by (rule sort_key_stable)
  have d: "version_key a < version_key b \<longleftrightarrow> segments_before (re_split a) (re_split b)"
    by (simp add: version_key_parts keys_less_iff)
  have e: "version_key ''3.9'' < version_key ''3.10''" by code_simp
  have f: "version_key ''3.10'' < version_key ''3.11-arm64''" by code_simp
  have g: "''3.10'' < ''3.9''" by code_simp
  show ?thesis using a b c d e f g listing_order[of es] by blast
qed

theorem list_orders_versions_witness:
  "sorted_versions example_tags = [''3.9'', ''3.10'', ''3.11-arm64'']
   \<and> sorted (map version_key [''3.9'', ''3.10'', ''3.11-arm64''])
   \<and> listing example_tags
       = [(''3.9'', [''api'']), (''3.10'', [''web'']), (''3.11-arm64'', [''web''])]"
proof -
  have a: "sorted_versions example_tags = [''3.9'', ''3.10'', ''3.11-arm64'']" by code_simp
  have b: "listing example_tags
       = [(''3.9'', [''api'']), (''3.10'', [''web'']), (''3.11-arm64'', [''web''])]"
    by code_simp
  from list_orders_versions [of example_tags]
  have "sorted (map version_key (sorted_versions example_tags))" by blast
  then show ?thesis using a b by simp
qed

section \<open>Creating an environment\<close>

lemma create_front:
  assumes "requested h version_arg v"
  shows "cmd_create h version_arg name w =
     (case map_of (pythons h) v of
           None \<Rightarrow> (interpreter_not_found v, w)
         | Some python_exe \<Rightarrow>
             (let env_dir = [v, name] in
              if path_exists (fs w) env_dir then (already_exists name, w)
              else
                (case mkdir_p (fs w) [v] of
                   Inl e \<Rightarrow> (Uncaught e, w)
                 | Inr fs1 \<Rightarrow>
                     (let w1 = print (''Creating venv at '' @ str_path h env_dir @ '' using ''
                                      @ python_exe @ '' ...'') (w\<lparr>fs := fs1\<rparr>);
                          (probe, fs2) = run h (probe_cmd python_exe) (fs w1);
                          (made, fs3) = run h (venv_cmd h python_exe env_dir probe) fs2
                      in
                      case made of
                        RunReturned rc out \<Rightarrow>
                          if rc \<noteq> 0
                          then (creation_failed out,
                                w1\<lparr>fs := rmtree_ignore_errors fs3 env_dir\<rparr>)
                          else (Returned, print ''Success!'' (w1\<lparr>fs := fs3\<rparr>))
                      | RunRaised e \<Rightarrow>
                          (creation_failed (''Error creating environment: '' @ e),
                           w1\<lparr>fs := rmtree_ignore_errors fs3 env_dir\<rparr>)))))"
  using assms unfolding requested_def cmd_create_def
  by (auto simp: truthy_def)

lemma example_requested:
  "requested example_host (Some ''3.9'') ''3.9''"
  "requested example_host None ''3.12''"
  "requested example_host (Some ''3.11'') ''3.11''"
  by (simp_all add: requested_def get_default_version_def example_host_def strip_by_def
      str_space_def int_space_def)

text \<open>
  Claim C5. When the version tag a create asks for, on the command line or through the
  persisted default, is not among the installed interpreters, the command fails with
  \<open>InterpreterNotFound\<close>, with exit status 1, and the world is as before: no
  directory is created or changed, nothing is printed, no subprocess is run.
\<close>

theorem create_unknown_version:
  assumes "requested h version_arg v" and "v \<notin> set (map fst (pythons h))"
  shows "cmd_create h version_arg name w = (interpreter_not_found v, w)
    \<and> exit_code (fst (cmd_create h version_arg name w)) = Some 1
    \<and> fs (snd (cmd_create h version_arg name w)) = fs w"
proof -
  from assms(2) have "map_of (pythons h) v = None" by (simp add: map_of_eq_None_iff)
  then show ?thesis by (simp add: create_front[OF assms(1)] interpreter_not_found_def)
qed

theorem create_unknown_version_witness:
  "requested example_host None ''3.12''
   \<and> ''3.12'' \<notin> set (map fst (pythons example_host))
   \<and> cmd_create example_host None ''gamma'' (example_world example_root False [])
       = (interpreter_not_found ''3.12'', example_world example_root False [])"
proof -
  have h2: "''3.12'' \<notin> set (map fst (pythons example_host))"
    by (simp add: example_host_def)
  show ?thesis
    using example_requested(2) h2 create_unknown_version [OF example_requested(2) h2]
    by blast
qed

text \<open>
  Claim C6, as stated: every create whose target path already exists as a directory
  fails with \<open>AlreadyExists\<close>. It does not when the version tag is not installed: the
  directory \<open>3.9/alpha\<close> exists, and the create fails with \<open>InterpreterNotFound\<close>,
  which is another failure.
\<close>

theorem create_existing_counterexample:
  "is_dir (fs (example_world example_root False [])) [''3.9'', ''alpha'']
   \<and> fst (cmd_create example_host (Some ''3.9'') ''alpha'' (example_world example_root False []))
       = interpreter_not_found ''3.9''
   \<and> fst (cmd_create example_host (Some ''3.9'') ''alpha'' (example_world example_root False []))
       \<noteq> already_exists ''alpha''"
proof -
  have a: "is_dir (fs (example_world example_root False [])) [''3.9'', ''alpha'']"
    by code_simp
  have h2: "map_of (pythons example_host) ''3.9'' = None"
    by (simp add: example_host_def)
  have b: "cmd_create example_host (Some ''3.9'') ''alpha'' (example_world example_root False [])
       = (interpreter_not_found ''3.9'', example_world example_root False [])"
    by (simp add: create_front[OF example_requested(1)] h2)
  have c: "interpreter_not_found ''3.9'' \<noteq> already_exists ''alpha''"
    by (simp add: interpreter_not_found_def already_exists_def)
  show ?thesis using a b c by simp
qed

text \<open>
  Claim C6, amended. When the version tag a create asks for is among the installed
  interpreters and the target path \<^verbatim>\<open>ROOT/versionTag/name\<close> already exists, with or
  without the marker, the command fails with \<open>AlreadyExists\<close>, with exit status 1, and
  the world is as before: the directory and its contents are untouched.
\<close>

theorem create_existing:
  assumes "requested h version_arg v" and "v \<in> set (map fst (pythons h))"
    and "path_exists (fs w) [v, name]"
  shows "cmd_create h version_arg name w = (already_exists name, w)
    \<and> exit_code (fst (cmd_create h version_arg name w)) = Some 1
    \<and> fs (snd (cmd_create h version_arg name w)) = fs w"
proof -
  from assms(2) obtain exe where "map_of (pythons h) v = Some exe"
    using in_names_iff[of v "pythons h"] by auto
  then show ?thesis
    using assms(3) by (simp add: create_front[OF assms(1)] already_exists_def)
qed

theorem create_existing_witness:
  "requested example_host (Some ''3.11'') ''3.11''
   \<and> ''3.11'' \<in> set (map fst (pythons example_host))
   \<and> path_exists (fs (example_world example_two False [])) [''3.11'', ''alpha'']
   \<and> cmd_create example_host (Some ''3.11'') ''alpha'' (example_world example_two False [])
       = (already_exists ''alpha'', example_world example_two False [])"
proof -
  have h2: "''3.11'' \<in> set (map fst (pythons example_host))"
    by (simp add: example_host_def)
  have h3: "path_exists (fs (example_world example_two False [])) [''3.11'', ''alpha'']"
    by code_simp
  show ?thesis
    using example_requested(3) h2 h3 create_existing [OF example_requested(3) h2 h3]
    by blast
qed

section \<open>Removing a directory tree\<close>

lemma lookup_path_append:
  "lookup_path es (p @ q) =
     (case lookup_path es p of
        None \<Rightarrow> None
      | Some (File d) \<Rightarrow> (if q = [] then Some (File d) else None)
      | Some (Dir ds) \<Rightarrow> lookup_path ds q)"
  by (induction es p rule: lookup_path.induct)
     (auto split: option.splits node.splits)

lemma below_non_dir:
  "\<not> is_dir es p \<Longrightarrow> q \<noteq> [] \<Longrightarrow> \<not> path_exists es (p @ q)"
  by (auto simp: is_dir_def path_exists_def lookup_path_append split: option.splits node.splits)

lemma map_of_remove_inner:
  "map_of (map (\<lambda>e. if fst e = c
               then (case snd e of Dir ds \<Rightarrow> (fst e, Dir (g ds)) | File d \<Rightarrow> e)
               else e) es) c
   = map_option (\<lambda>nd. case nd of Dir ds \<Rightarrow> Dir (g ds) | File d \<Rightarrow> File d) (map_of es c)"
  by (induction es) (auto split: node.splits)

lemma map_of_filter_out: "map_of (filter (\<lambda>e. fst e \<noteq> c) es) c = None"
  by (induction es) auto

lemma lookup_removed:
  "p \<noteq> [] \<Longrightarrow> lookup_path (remove_tree es p) (p @ q) = None"
proof (induction es p rule: remove_tree.induct)
  case (1 es)
  then show ?case by simp
next
  case (2 es c)
  then show ?case by (simp add: map_of_filter_out)
next
  case (3 es c c' cs)
  show ?case
  proof (cases "map_of es c")
    case None
    then show ?thesis by (simp add: map_of_remove_inner)
  next
    case (Some nd)
    show ?thesis
    proof (cases nd)
      case (File d)
      with Some show ?thesis by (simp add: map_of_remove_inner)
    next
      case (Dir ds)
      with Some have "(c, Dir ds) \<in> set es" by (simp add: map_of_SomeD)
      then have "lookup_path (remove_tree ds (c' # cs)) ((c' # cs) @ q) = None"
        using "3.IH"[of "(c, Dir ds)" ds] by simp
      then have "lookup_path (remove_tree ds (c' # cs)) (c' # cs @ q) = None" by simp
      moreover have "map_of (remove_tree es (c # c' # cs)) c
                       = Some (Dir (remove_tree ds (c' # cs)))"
        using Some Dir by (simp add: map_of_remove_inner)
      then have "lookup_path (remove_tree es (c # c' # cs)) (c # c' # cs @ q)
                   = lookup_path (remove_tree ds (c' # cs)) (c' # cs @ q)"
        by (simp del: remove_tree.simps)
      ultimately show ?thesis by (simp del: remove_tree.simps lookup_path.simps)
    qed
  qed
qed

lemma removed_gone: "p \<noteq> [] \<Longrightarrow> \<not> path_exists (remove_tree es p) (p @ q)"
  by (simp add: path_exists_def lookup_removed)

lemma rmtree_ignore_errors_below:
  assumes "p \<noteq> []"
  shows "\<not> is_dir (rmtree_ignore_errors es p) (p @ q)"
    and "q \<noteq> [] \<Longrightarrow> \<not> path_exists (rmtree_ignore_errors es p) (p @ q)"
    and "is_dir es p \<Longrightarrow> \<not> path_exists (rmtree_ignore_errors es p) (p @ q)"
proof -
  have a: "is_dir es p \<Longrightarrow> rmtree_ignore_errors es p = remove_tree es p"
    by (simp add: rmtree_ignore_errors_def rmtree_def)
  have b: "\<not> is_dir es p \<Longrightarrow> rmtree_ignore_errors es p = es"
    by (simp add: rmtree_ignore_errors_def rmtree_def)
  show "is_dir es p \<Longrightarrow> \<not> path_exists (rmtree_ignore_errors es p) (p @ q)"
    using removed_gone[OF assms] a by simp
  show "q \<noteq> [] \<Longrightarrow> \<not> path_exists (rmtree_ignore_errors es p) (p @ q)"
    using removed_gone[OF assms] a b below_non_dir by (cases "is_dir es p") auto
  show "\<not> is_dir (rmtree_ignore_errors es p) (p @ q)"
  proof (cases "is_dir es p")
    case True
    then show ?thesis using removed_gone[OF assms, of es q] a
      by (auto simp: is_dir_def path_exists_def split: option.splits)
  next
    case False
    then show ?thesis using b below_non_dir[of es p q]
      by (cases "q = []") (auto simp: is_dir_def path_exists_def split: option.splits)
  qed
qed

text \<open>
  Claim C7. Let a create reach the delegated creation: the version tag is installed, the
  target path is free, the parent directory is there or made, the probe has run; and let
  the creation command return a code other than 0 with output \<open>out\<close>, leaving the tree
  \<open>fs3\<close>. The command fails with \<open>CreationFailed out\<close>, exit status 1, and the tree
  it leaves is \<open>fs3\<close> after \<^verbatim>\<open>rmtree(env_dir, ignore_errors=True)\<close>: no directory is
  left at the target path or below it, nothing at all exists below it, and if the
  creation left a directory at the target path, the path does not exist any more.
\<close>

theorem create_failure_cleans_up:
  assumes req: "requested h version_arg v"
    and exe: "map_of (pythons h) v = Some python_exe"
    and fresh: "\<not> path_exists (fs w) [v, name]"
    and parent: "mkdir_p (fs w) [v] = Inr fs1"
    and probe: "run h (probe_cmd python_exe) fs1 = (probe, fs2)"
    and made: "run h (venv_cmd h python_exe [v, name] probe) fs2 = (RunReturned rc out, fs3)"
    and fail: "rc \<noteq> 0"
  shows "fst (cmd_create h version_arg name w) = creation_failed out
    \<and> exit_code (fst (cmd_create h version_arg name w)) = Some 1
    \<and> fs (snd (cmd_create h version_arg name w)) = rmtree_ignore_errors fs3 [v, name]
    \<and> (\<forall>q. \<not> is_dir (fs (snd (cmd_create h version_arg name w))) ([v, name] @ q))
    \<and> (\<forall>q. q \<noteq> [] \<longrightarrow>
          \<not> path_exists (fs (snd (cmd_create h version_arg name w))) ([v, name] @ q))
    \<and> (is_dir fs3 [v, name] \<longrightarrow>
          \<not> path_exists (fs (snd (cmd_create h version_arg name w))) [v, name])"
proof -
  have r: "cmd_create h version_arg name w =
      (creation_failed out,
       (print (''Creating venv at '' @ str_path h [v, name] @ '' using ''
               @ python_exe @ '' ...'') (w\<lparr>fs := fs1\<rparr>))
           \<lparr>fs := rmtree_ignore_errors fs3 [v, name]\<rparr>)"
    using exe fresh parent probe made fail
    by (simp add: create_front[OF req] print_def Let_def del: mkdir_p.simps)
  have ne: "[v, name] \<noteq> []" by simp
  show ?thesis
    unfolding r
    using rmtree_ignore_errors_below[OF ne, where es = fs3]
      rmtree_ignore_errors_below(3)[OF ne, where es = fs3 and q = "[]"]
    by (simp add: creation_failed_def)
qed

theorem create_failure_cleans_up_witness:
  "requested example_host (Some ''3.11'') ''3.11''
   \<and> \<not> path_exists (fs (example_world example_root False [])) [''3.11'', ''gamma'']
   \<and> is_dir example_half_built [''3.11'', ''gamma'']
   \<and> fst (cmd_create example_host (Some ''3.11'') ''gamma'' (example_world example_root False []))
       = creation_failed ''Error: disk full''
   \<and> \<not> path_exists
         (fs (snd (cmd_create example_host (Some ''3.11'') ''gamma''
                     (example_world example_root False []))))
         [''3.11'', ''gamma'']"
proof -
  let ?w = "example_world example_root False []"
  have h2: "map_of (pythons example_host) ''3.11'' = Some ''/usr/bin/python3.11''"
    by (simp add: example_host_def)
  have h3: "\<not> path_exists (fs ?w) [''3.11'', ''gamma'']" by code_simp
  have h4: "mkdir_p (fs ?w) [''3.11''] = Inr example_root" by code_simp
  have h5: "run example_host (probe_cmd ''/usr/bin/python3.11'') example_root
              = (RunReturned 0 ''True'', example_root)"
    by (simp add: example_host_def failing_run_def)
  have h6: "run example_host
              (venv_cmd example_host ''/usr/bin/python3.11'' [''3.11'', ''gamma'']
                 (RunReturned 0 ''True'')) example_root
              = (RunReturned 1 ''Error: disk full'', example_half_built)"
    by (simp add: example_host_def failing_run_def venv_cmd_def probe_cmd_def
        example_root_def example_half_built_def)
  have h7: "(1::int) \<noteq> 0" by simp
  have d: "is_dir example_half_built [''3.11'', ''gamma'']" by code_simp
  show ?thesis
    using example_requested(3) h3 d
      create_failure_cleans_up [OF example_requested(3) h2 h3 h4 h5 h6 h7]
    by blast
qed

section \<open>Printing and reading\<close>

lemma print_fields [simp]:
  "fs (print s w) = fs w" "stdin (print s w) = stdin w"
  "stdin_isatty (print s w) = stdin_isatty w" "stdout_isatty (print s w) = stdout_isatty w"
  "spawned (print s w) = spawned w" "stdout (print s w) = stdout w @ [s]"
  by (simp_all add: print_def)

lemma print_all_fields [simp]:
  "fs (foldl (\<lambda>w l. print l w) w ls) = fs w"
  "stdin (foldl (\<lambda>w l. print l w) w ls) = stdin w"
  "stdin_isatty (foldl (\<lambda>w l. print l w) w ls) = stdin_isatty w"
  "stdout_isatty (foldl (\<lambda>w l. print l w) w ls) = stdout_isatty w"
  "spawned (foldl (\<lambda>w l. print l w) w ls) = spawned w"
  "stdout (foldl (\<lambda>w l. print l w) w ls) = stdout w @ ls"
  by (induction ls arbitrary: w) simp_all

lemma select_unattended:
  assumes "\<not> stdin_isatty w" and "ms \<noteq> []"
  shows "fst (select_environment ms name action w) = Value None"
    and "fs (snd (select_environment ms name action w)) = fs w"
    and "stdin (snd (select_environment ms name action w)) = stdin w"
    and "spawned (snd (select_environment ms name action w)) = spawned w"
    and "guidance action name \<in> set (stdout (snd (select_environment ms name action w)))"
  using assms
  by (cases ms; auto simp: select_environment_def Let_def guidance_def split: prod.splits)+

lemma select_unattended_any:
  assumes "\<not> stdin_isatty w"
  shows "fst (select_environment ms name action w) \<noteq> Hang"
    and "stdin (snd (select_environment ms name action w)) = stdin w"
  using assms
  by (cases ms; auto simp: select_environment_def Let_def split: prod.splits)+

lemma py_input_line:
  "stdin w = Line s # rest \<Longrightarrow> py_input prompt w
     = (Value s, (if prompt = [] then w else print prompt w)\<lparr>stdin := rest\<rparr>)"
  by (simp add: py_input_def Let_def)

lemma select_invalid:
  assumes "stdin_isatty w" and "stdin w = Line choice # rest" and "\<not> valid_choice ms choice"
  shows "fst (select_environment ms name action w) = Value None"
    and "fs (snd (select_environment ms name action w)) = fs w"
    and "spawned (snd (select_environment ms name action w)) = spawned w"
  using assms
  by (auto simp: select_environment_def Let_def valid_choice_def py_input_line
      split: option.splits)

lemma py_int_empty: "py_int [] = None"
  by (simp add: py_int_def strip_by_def)

section \<open>Delete and activate\<close>

lemma resolve_multiple_nonempty:
  "resolve es name version = MultipleMatches ms \<Longrightarrow> ms \<noteq> []"
  by (auto simp: resolve_def Let_def split: if_splits option.splits)

lemma resolve_single:
  assumes "resolve es name version = SingleMatch ver env_dir"
  shows "env_dir = [ver, name] \<and> environment_exists es ver name"
proof (cases "truthy version")
  case True
  then obtain v where v: "version = Some v" "v \<noteq> []"
    by (auto simp: truthy_def split: option.splits)
  with assms True show ?thesis
    by (auto simp: resolve_def env_path_version split: if_splits)
next
  case False
  let ?all = "find_envs_by_name es name True"
  from assms False have one: "?all \<noteq> []" "\<not> length ?all > 1"
    and sel: "ver = fst (hd ?all)" "env_dir = snd (hd ?all)"
    by (auto simp: resolve_def Let_def split: if_splits)
  from one obtain m where m: "?all = [m]"
    by (cases ?all; cases "tl ?all") auto
  then have "m \<in> set ?all" by simp
  then have "environment_exists es (fst m) name \<and> snd m = [fst m, name]"
    using environment_exists_child[of es "fst m" name] by (auto simp: find_all_filter)
  with sel m show ?thesis by simp
qed

lemma environment_is_dir: "environment_exists es v name \<Longrightarrow> is_dir es [v, name]"
  by (auto simp: is_dir_def environment_exists_def split: option.splits node.splits)

lemma locate_multiple:
  assumes "resolve (fs w) name version = MultipleMatches ms"
  shows "locate action name version w =
     (case select_environment ms name action w of
             (Hang, w') \<Rightarrow> (Inl Blocked, w')
           | (Raise e, w') \<Rightarrow> (Inl (Uncaught e), w')
           | (Value None, w') \<Rightarrow> (Inl Returned, w')
           | (Value (Some sel), w') \<Rightarrow> (Inr (snd sel), w'))"
  using assms by (simp add: locate_def)

lemma locate_aborts:
  assumes "resolve (fs w) name version = MultipleMatches ms"
    and "fst (select_environment ms name action w) = Value None"
  shows "locate action name version w = (Inl Returned, snd (select_environment ms name action w))"
  using assms by (cases "select_environment ms name action w") (simp add: locate_multiple)

lemma locate_single:
  assumes "resolve (fs w) name version = SingleMatch ver env_dir"
  shows "fst (locate action name version w) = Inr env_dir"
    and "fs (snd (locate action name version w)) = fs w"
    and "stdin (snd (locate action name version w)) = stdin w"
    and "stdin_isatty (snd (locate action name version w)) = stdin_isatty w"
  using assms by (simp_all add: locate_def)

lemma locate_not_found:
  assumes "resolve (fs w) name version = NotFound"
  shows "\<exists>msg. locate action name version w = (Inl (SysExit msg), w)"
  using assms by (simp add: locate_def environment_not_found_def)

text \<open>
  Claim C8. Let a delete or an activate resolve to several matches. When standard input
  is not a terminal, the command prints the guidance to name the version, returns with
  exit status 0 and leaves the directory tree as it was (and activate spawns nothing).
  When standard input is a terminal and the selection typed is not one the menu accepts
  (not an integer, or out of range), the command likewise returns with exit status 0
  and the tree as it was. The empty selection is not accepted.
\<close>

theorem ambiguous_aborts_cleanly:
  assumes multi: "resolve (fs w) name version = MultipleMatches ms"
  shows "(\<not> stdin_isatty w \<longrightarrow>
            fst (cmd_delete h name version yes w) = Returned
          \<and> exit_code (fst (cmd_delete h name version yes w)) = Some 0
          \<and> fs (snd (cmd_delete h name version yes w)) = fs w
          \<and> guidance ''delete'' name \<in> set (stdout (snd (cmd_delete h name version yes w)))
          \<and> fst (cmd_activate h name version shell interactive w) = Returned
          \<and> exit_code (fst (cmd_activate h name version shell interactive w)) = Some 0
          \<and> fs (snd (cmd_activate h name version shell interactive w)) = fs w
          \<and> spawned (snd (cmd_activate h name version shell interactive w)) = spawned w
          \<and> guidance ''activate'' name
               \<in> set (stdout (snd (cmd_activate h name version shell interactive w))))
       \<and> (stdin_isatty w \<and> stdin w = Line choice # rest \<and> \<not> valid_choice ms choice \<longrightarrow>
            fst (cmd_delete h name version yes w) = Returned
          \<and> exit_code (fst (cmd_delete h name version yes w)) = Some 0
          \<and> fs (snd (cmd_delete h name version yes w)) = fs w
          \<and> fst (cmd_activate h name version shell interactive w) = Returned
          \<and> exit_code (fst (cmd_activate h name version shell interactive w)) = Some 0
          \<and> fs (snd (cmd_activate h name version shell interactive w)) = fs w
          \<and> spawned (snd (cmd_activate h name version shell interactive w)) = spawned w)
       \<and> \<not> valid_choice ms []"
proof -
  have ne: "ms \<noteq> []" using multi by (rule resolve_multiple_nonempty)
  have del: "fst (select_environment ms name ''delete'' w) = Value None \<Longrightarrow>
      cmd_delete h name version yes w = (Returned, snd (select_environment ms name ''delete'' w))"
    by (simp add: cmd_delete_def locate_aborts[OF multi])
  have act: "fst (select_environment ms name ''activate'' w) = Value None \<Longrightarrow>
      cmd_activate h name version shell interactive w
        = (Returned, snd (select_environment ms name ''activate'' w))"
    by (simp add: cmd_activate_def locate_aborts[OF multi])
  have un: "\<not> stdin_isatty w \<Longrightarrow>
            fst (cmd_delete h name version yes w) = Returned
          \<and> exit_code (fst (cmd_delete h name version yes w)) = Some 0
          \<and> fs (snd (cmd_delete h name version yes w)) = fs w
          \<and> guidance ''delete'' name \<in> set (stdout (snd (cmd_delete h name version yes w)))
          \<and> fst (cmd_activate h name version shell interactive w) = Returned
          \<and> exit_code (fst (cmd_activate h name version shell interactive w)) = Some 0
          \<and> fs (snd (cmd_activate h name version shell interactive w)) = fs w
          \<and> spawned (snd (cmd_activate h name version shell interactive w)) = spawned w
          \<and> guidance ''activate'' name
               \<in> set (stdout (snd (cmd_activate h name version shell interactive w)))"
  proof -
    assume na: "\<not> stdin_isatty w"
    note d = select_unattended[OF na ne, where name = name and action = "''delete''"]
    note a = select_unattended[OF na ne, where name = name and action = "''activate''"]
    show ?thesis using d a del act by simp
  qed
  have at: "stdin_isatty w \<Longrightarrow> stdin w = Line choice # rest \<Longrightarrow> \<not> valid_choice ms choice \<Longrightarrow>
            fst (cmd_delete h name version yes w) = Returned
          \<and> exit_code (fst (cmd_delete h name version yes w)) = Some 0
          \<and> fs (snd (cmd_delete h name version yes w)) = fs w
          \<and> fst (cmd_activate h name version shell interactive w) = Returned
          \<and> exit_code (fst (cmd_activate h name version shell interactive w)) = Some 0
          \<and> fs (snd (cmd_activate h name version shell interactive w)) = fs w
          \<and> spawned (snd (cmd_activate h name version shell interactive w)) = spawned w"
  proof -
    assume as: "stdin_isatty w" "stdin w = Line choice # rest" "\<not> valid_choice ms choice"
    note d = select_invalid[OF as, where name = name and action = "''delete''"]
    note a = select_invalid[OF as, where name = name and action = "''activate''"]
    show ?thesis using d a del act by simp
  qed
  have em: "\<not> valid_choice ms []" by (simp add: valid_choice_def py_int_empty)
  show ?thesis using un at em by blast
qed

theorem ambiguous_aborts_cleanly_witness:
  "resolve (fs (example_world example_two False [])) ''alpha'' None
     = MultipleMatches [(''3.11'', [''3.11'', ''alpha'']), (''3.10'', [''3.10'', ''alpha''])]
   \<and> \<not> stdin_isatty (example_world example_two False [])
   \<and> fst (cmd_delete example_host ''alpha'' None False (example_world example_two False []))
       = Returned
   \<and> fs (snd (cmd_delete example_host ''alpha'' None False (example_world example_two False [])))
       = example_two
   \<and> \<not> valid_choice [(''3.11'', [''3.11'', ''alpha'']), (''3.10'', [''3.10'', ''alpha''])] ''7''
   \<and> fst (cmd_delete example_host ''alpha'' None True
             (example_world example_two True [Line ''7''])) = Returned
   \<and> fs (snd (cmd_delete example_host ''alpha'' None True
                 (example_world example_two True [Line ''7'']))) = example_two"
proof -
  let ?ms = "[(''3.11'', [''3.11'', ''alpha'']), (''3.10'', [''3.10'', ''alpha''])]"
  let ?u = "example_world example_two False []"
  let ?a = "example_world example_two True [Line ''7'']"
  have ru: "resolve (fs ?u) ''alpha'' None = MultipleMatches ?ms" by code_simp
  have ra: "resolve (fs ?a) ''alpha'' None = MultipleMatches ?ms" by code_simp
  have nu: "\<not> stdin_isatty ?u" by (simp add: example_world_def)
  have ta: "stdin_isatty ?a \<and> stdin ?a = Line ''7'' # []" by (simp add: example_world_def)
  have iv: "\<not> valid_choice ?ms ''7''" by code_simp
  have fu: "fs ?u = example_two" and fa: "fs ?a = example_two"
    by (simp_all add: example_world_def)
  from ambiguous_aborts_cleanly
    [OF ru, where h = example_host and yes = False and shell = False
       and interactive = False and choice = "''7''" and rest = "[]"] nu
  have u: "fst (cmd_delete example_host ''alpha'' None False ?u) = Returned
         \<and> fs (snd (cmd_delete example_host ''alpha'' None False ?u)) = fs ?u"
    by blast
  from ambiguous_aborts_cleanly
    [OF ra, where h = example_host and yes = True and shell = False
       and interactive = False and choice = "''7''" and rest = "[]"] ta iv
  have a: "fst (cmd_delete example_host ''alpha'' None True ?a) = Returned
         \<and> fs (snd (cmd_delete example_host ''alpha'' None True ?a)) = fs ?a"
    by blast
  show ?thesis using ru nu iv u a unfolding fu fa by blast
qed

lemma lower_char_y:
  "(if CHR ''A'' \<le> c \<and> c \<le> CHR ''Z'' then char_of (of_char c + (32::nat)) else c) = CHR ''y''
     \<longleftrightarrow> c = CHR ''y'' \<or> c = CHR ''Y''"
proof -
  let ?n = "of_char c :: nat"
  have up: "CHR ''A'' \<le> c \<and> c \<le> CHR ''Z'' \<longleftrightarrow> 65 \<le> ?n \<and> ?n \<le> 90"
    by (simp add: less_eq_char_def)
  have "c = CHR ''y'' \<longleftrightarrow> ?n = (of_char CHR ''y'' :: nat)"
    by (simp only: of_char_eq_iff)
  then have y: "c = CHR ''y'' \<longleftrightarrow> ?n = 121" by simp
  have "c = CHR ''Y'' \<longleftrightarrow> ?n = (of_char CHR ''Y'' :: nat)"
    by (simp only: of_char_eq_iff)
  then have Y: "c = CHR ''Y'' \<longleftrightarrow> ?n = 89" by simp
  have "char_of (?n + 32) = CHR ''y'' \<longleftrightarrow> (?n + 32) mod 256 = (of_char CHR ''y'' :: nat)"
    by (simp only: char_of_eq_iff take_bit_eq_mod) simp
  then have sh: "char_of (?n + 32) = CHR ''y'' \<longleftrightarrow> (?n + 32) mod 256 = 121" by simp
  show ?thesis
  proof (cases "65 \<le> ?n \<and> ?n \<le> 90")
    case True
    then have "(?n + 32) mod 256 = ?n + 32" by simp
    then have k: "char_of (?n + 32) = CHR ''y'' \<longleftrightarrow> ?n = 89" using sh by auto
    have cond: "CHR ''A'' \<le> c \<and> c \<le> CHR ''Z''" using True up by blast
    have ny: "c \<noteq> CHR ''y''" using True y by simp
    from cond have "(if CHR ''A'' \<le> c \<and> c \<le> CHR ''Z'' then char_of (?n + 32) else c)
                      = char_of (?n + 32)"
      by (rule if_P)
    then show ?thesis using k Y ny by metis
  next
    case False
    then have cond: "\<not> (CHR ''A'' \<le> c \<and> c \<le> CHR ''Z'')" using up by blast
    from False have "?n \<noteq> 89" by arith
    then have nY: "c \<noteq> CHR ''Y''" using Y by blast
    from cond have "(if CHR ''A'' \<le> c \<and> c \<le> CHR ''Z'' then char_of (?n + 32) else c) = c"
      by (rule if_not_P)
    then show ?thesis using nY by metis
  qed
qed

lemma py_lower_y: "py_lower answer = ''y'' \<longleftrightarrow> answer = ''y'' \<or> answer = ''Y''"
proof (cases answer)
  case Nil
  then show ?thesis by (simp add: py_lower_def)
next
  case (Cons c cs)
  then show ?thesis using lower_char_y[of c] by (auto simp: py_lower_def)
qed

lemma delete_tree_dir:
  "is_dir (fs w) env_dir \<Longrightarrow>
     delete_tree env_dir w = (Returned, print ''Done.'' (w\<lparr>fs := remove_tree (fs w) env_dir\<rparr>))"
  by (simp add: delete_tree_def rmtree_def)

lemma cmd_delete_single:
  assumes "resolve (fs w) name version = SingleMatch ver env_dir"
  shows "cmd_delete h name version yes w =
     (let w1 = snd (locate ''delete'' name version w) in
      if \<not> yes then
            (case py_input (confirm_prompt h env_dir) w1 of
               (Hang, w2) \<Rightarrow> (Blocked, w2)
             | (Raise e, w2) \<Rightarrow> (Uncaught e, w2)
             | (Value answer, w2) \<Rightarrow>
                 if py_lower answer \<noteq> ''y'' then (Returned, w2) else delete_tree env_dir w2)
          else delete_tree env_dir w1)"
  using locate_single(1)[OF assms, of "''delete''"]
  by (cases "locate ''delete'' name version w") (simp add: cmd_delete_def)

text \<open>
  Claim C2, as stated: an affirmative "yes" answer removes the environment. The answer
  \<open>yes\<close> does not: the prompt of line 288 accepts \<open>y\<close> and \<open>Y\<close> only, and on
  \<open>yes\<close> the delete of the single environment \<open>beta\<close> returns with the registry
  as it was.
\<close>

theorem delete_answer_yes_counterexample:
  "resolve example_root ''beta'' None = SingleMatch ''3.11'' [''3.11'', ''beta'']
   \<and> fst (cmd_delete example_host ''beta'' None False
             (example_world example_root True [Line ''yes''])) = Returned
   \<and> fs (snd (cmd_delete example_host ''beta'' None False
                 (example_world example_root True [Line ''yes'']))) = example_root
   \<and> is_dir example_root [''3.11'', ''beta'']"
  by code_simp

text \<open>
  Claim C2, amended. Let a delete without the skip flag resolve to a single environment
  and read the answer to its confirmation prompt. Any answer other than \<open>y\<close> or \<open>Y\<close>,
  the word \<open>yes\<close> included, ends the command with exit status 0 and the directory
  tree as it was, marker included. The answers \<open>y\<close> and \<open>Y\<close> remove the environment
  directory: the tree left is the old one without it, and nothing exists at its path or
  below.
\<close>

theorem delete_confirmation:
  assumes single: "resolve (fs w) name version = SingleMatch ver env_dir"
    and answer: "stdin w = Line answer # rest"
  shows "(answer \<noteq> ''y'' \<and> answer \<noteq> ''Y'' \<longrightarrow>
            fst (cmd_delete h name version False w) = Returned
          \<and> exit_code (fst (cmd_delete h name version False w)) = Some 0
          \<and> fs (snd (cmd_delete h name version False w)) = fs w
          \<and> path_exists (fs (snd (cmd_delete h name version False w))) (env_dir @ [marker]))
       \<and> (answer = ''y'' \<or> answer = ''Y'' \<longrightarrow>
            fst (cmd_delete h name version False w) = Returned
          \<and> fs (snd (cmd_delete h name version False w)) = remove_tree (fs w) env_dir
          \<and> (\<forall>q. \<not> path_exists (fs (snd (cmd_delete h name version False w))) (env_dir @ q)))"
proof -
  let ?w1 = "snd (locate ''delete'' name version w)"
  let ?prompt = "confirm_prompt h env_dir"
  note l = locate_single[OF single, of "''delete''"]
  from resolve_single[OF single]
  have ed: "env_dir = [ver, name]" and ex: "environment_exists (fs w) ver name" by simp_all
  have dir: "is_dir (fs w) env_dir" using ed environment_is_dir[OF ex] by simp
  have mk: "path_exists (fs w) (env_dir @ [marker])"
    using ed ex has_marker_iff[of "fs w" ver name] by simp
  have ne: "env_dir \<noteq> []" using ed by simp
  have inp: "py_input ?prompt ?w1 = (Value answer, (print ?prompt ?w1)\<lparr>stdin := rest\<rparr>)"
    using py_input_line[of ?w1 answer rest ?prompt] answer l(3)
    by (simp add: confirm_prompt_def)
  have no: "py_lower answer \<noteq> ''y'' \<Longrightarrow>
      cmd_delete h name version False w = (Returned, (print ?prompt ?w1)\<lparr>stdin := rest\<rparr>)"
    by (simp add: cmd_delete_single[OF single] inp)
  have yes: "py_lower answer = ''y'' \<Longrightarrow>
      cmd_delete h name version False w
        = delete_tree env_dir ((print ?prompt ?w1)\<lparr>stdin := rest\<rparr>)"
    by (simp add: cmd_delete_single[OF single] inp)
  have a: "answer \<noteq> ''y'' \<and> answer \<noteq> ''Y'' \<Longrightarrow>
            fst (cmd_delete h name version False w) = Returned
          \<and> exit_code (fst (cmd_delete h name version False w)) = Some 0
          \<and> fs (snd (cmd_delete h name version False w)) = fs w
          \<and> path_exists (fs (snd (cmd_delete h name version False w))) (env_dir @ [marker])"
    using no py_lower_y[of answer] l(2) mk by simp
  have b: "answer = ''y'' \<or> answer = ''Y'' \<Longrightarrow>
            fst (cmd_delete h name version False w) = Returned
          \<and> fs (snd (cmd_delete h name version False w)) = remove_tree (fs w) env_dir
          \<and> (\<forall>q. \<not> path_exists (fs (snd (cmd_delete h name version False w))) (env_dir @ q))"
  proof -
    assume "answer = ''y'' \<or> answer = ''Y''"
    then have "py_lower answer = ''y''" using py_lower_y[of answer] by simp
    from yes[OF this] have "cmd_delete h name version False w
        = (Returned, print ''Done.''
             (((print ?prompt ?w1)\<lparr>stdin := rest\<rparr>)\<lparr>fs := remove_tree (fs w) env_dir\<rparr>))"
      using dir l(2) by (simp add: delete_tree_dir)
    then show ?thesis using removed_gone[OF ne, of "fs w"] by simp
  qed
  show ?thesis using a b by blast
qed

theorem delete_confirmation_witness:
  "resolve (fs (example_world example_root True [Line ''n''])) ''beta'' None
     = SingleMatch ''3.11'' [''3.11'', ''beta'']
   \<and> fst (cmd_delete example_host ''beta'' None False
             (example_world example_root True [Line ''n''])) = Returned
   \<and> fs (snd (cmd_delete example_host ''beta'' None False
                 (example_world example_root True [Line ''n'']))) = example_root
   \<and> fst (cmd_delete example_host ''beta'' None False
             (example_world example_root True [Line ''Y''])) = Returned
   \<and> \<not> path_exists
         (fs (snd (cmd_delete example_host ''beta'' None False
                     (example_world example_root True [Line ''Y'']))))
         [''3.11'', ''beta'']
   \<and> path_exists example_root [''3.11'', ''beta'']"
proof -
  let ?n = "example_world example_root True [Line ''n'']"
  let ?y = "example_world example_root True [Line ''Y'']"
  have rn: "resolve (fs ?n) ''beta'' None = SingleMatch ''3.11'' [''3.11'', ''beta'']"
    by code_simp
  have ry: "resolve (fs ?y) ''beta'' None = SingleMatch ''3.11'' [''3.11'', ''beta'']"
    by code_simp
  have sn: "stdin ?n = Line ''n'' # []" and sy: "stdin ?y = Line ''Y'' # []"
    by (simp_all add: example_world_def)
  have fn: "fs ?n = example_root" by (simp add: example_world_def)
  have an: "''n'' \<noteq> ''y'' \<and> ''n'' \<noteq> ''Y''" by simp
  have ex: "path_exists example_root [''3.11'', ''beta'']" by code_simp
  from delete_confirmation [OF rn sn, where h = example_host] an
  have n: "fst (cmd_delete example_host ''beta'' None False ?n) = Returned
         \<and> fs (snd (cmd_delete example_host ''beta'' None False ?n)) = fs ?n"
    by blast
  from delete_confirmation [OF ry sy, where h = example_host]
  have y0: "\<forall>q. \<not> path_exists (fs (snd (cmd_delete example_host ''beta'' None False ?y)))
                ([''3.11'', ''beta''] @ q)"
    and y1: "fst (cmd_delete example_host ''beta'' None False ?y) = Returned"
    by blast+
  from y0 have y2: "\<not> path_exists (fs (snd (cmd_delete example_host ''beta'' None False ?y)))
                ([''3.11'', ''beta''] @ [])"
    by (rule spec)
  show ?thesis using rn n y1 y2 ex unfolding fn by simp
qed

lemma spawn_shell_fields [simp]:
  "fs (spawn_shell h cmd w) = fs w" "stdin (spawn_shell h cmd w) = stdin w"
  "stdout (spawn_shell h cmd w) = stdout w"
  by (simp_all add: spawn_shell_def)

lemma locate_unattended:
  assumes "\<not> stdin_isatty w"
  shows "stdin (snd (locate action name version w)) = stdin w
       \<and> fst (locate action name version w) \<noteq> Inl Blocked"
proof (cases "resolve (fs w) name version")
  case NotFound
  then show ?thesis by (simp add: locate_def environment_not_found_def)
next
  case (SingleMatch ver env_dir)
  then show ?thesis using locate_single[OF SingleMatch, of action] by simp
next
  case (MultipleMatches ms)
  note s = select_unattended[OF assms resolve_multiple_nonempty[OF MultipleMatches],
      where name = name and action = action]
  show ?thesis by (simp add: locate_aborts[OF MultipleMatches s(1)] s)
qed

text \<open>
  Claim C9, as stated: with standard input not a terminal no prompt waits for input. The
  confirmation prompt does: a delete of the single environment \<open>beta\<close> without the
  skip flag, on a standard input that is not a terminal and on which nothing arrives,
  waits at the prompt; and when a \<open>y\<close> is piped in, it reads it and deletes.
\<close>

theorem unattended_confirmation_counterexample:
  "\<not> stdin_isatty (example_world example_root False [])
   \<and> resolve example_root ''beta'' None = SingleMatch ''3.11'' [''3.11'', ''beta'']
   \<and> fst (cmd_delete example_host ''beta'' None False (example_world example_root False []))
       = Blocked
   \<and> \<not> path_exists
         (fs (snd (cmd_delete example_host ''beta'' None False
                     (example_world example_root False [Line ''y'']))))
         [''3.11'', ''beta'']"
  by code_simp

text \<open>
  Claim C9, amended. When standard input is not a terminal, the menu for several matches
  never reads it: \<^verbatim>\<open>select_environment\<close> does not wait and leaves standard input as it
  was, activate never waits, delete with the skip flag never waits, and a delete that
  resolves to several matches returns with the tree untouched. The confirmation prompt
  of delete does not look at the terminal: a delete without the skip flag that resolves
  to one environment reads standard input, and waits when nothing arrives.
\<close>

theorem unattended_menu_never_reads:
  assumes na: "\<not> stdin_isatty w"
  shows "(\<forall>ms action. fst (select_environment ms name action w) \<noteq> Hang
            \<and> stdin (snd (select_environment ms name action w)) = stdin w)
       \<and> fst (cmd_activate h name version shell interactive w) \<noteq> Blocked
       \<and> stdin (snd (cmd_activate h name version shell interactive w)) = stdin w
       \<and> fst (cmd_delete h name version True w) \<noteq> Blocked
       \<and> stdin (snd (cmd_delete h name version True w)) = stdin w
       \<and> (\<forall>ms. resolve (fs w) name version = MultipleMatches ms \<longrightarrow>
             fst (cmd_delete h name version yes w) = Returned
           \<and> stdin (snd (cmd_delete h name version yes w)) = stdin w
           \<and> fs (snd (cmd_delete h name version yes w)) = fs w)
       \<and> (\<forall>ver env_dir. resolve (fs w) name version = SingleMatch ver env_dir \<and> stdin w = []
             \<longrightarrow> fst (cmd_delete h name version False w) = Blocked)"
proof -
  note loc = locate_unattended[OF na, of _ name version]
  have act: "fst (cmd_activate h name version shell interactive w) \<noteq> Blocked
       \<and> stdin (snd (cmd_activate h name version shell interactive w)) = stdin w"
  proof (cases "locate ''activate'' name version w")
    case (Pair r w1)
    with loc[of "''activate''"] have "stdin w1 = stdin w" "r \<noteq> Inl Blocked" by simp_all
    with Pair show ?thesis
      by (cases r) (auto simp: cmd_activate_def Let_def)
  qed
  have del: "fst (cmd_delete h name version True w) \<noteq> Blocked
       \<and> stdin (snd (cmd_delete h name version True w)) = stdin w"
  proof (cases "locate ''delete'' name version w")
    case (Pair r w1)
    with loc[of "''delete''"] have "stdin w1 = stdin w" "r \<noteq> Inl Blocked" by simp_all
    with Pair show ?thesis
      by (cases r) (auto simp: cmd_delete_def delete_tree_def split: sum.splits)
  qed
  have multi: "\<And>ms. resolve (fs w) name version = MultipleMatches ms \<Longrightarrow>
             fst (cmd_delete h name version yes w) = Returned
           \<and> stdin (snd (cmd_delete h name version yes w)) = stdin w
           \<and> fs (snd (cmd_delete h name version yes w)) = fs w"
  proof -
    fix ms assume m: "resolve (fs w) name version = MultipleMatches ms"
    note s = select_unattended[OF na resolve_multiple_nonempty[OF m],
        where name = name and action = "''delete''"]
    have "cmd_delete h name version yes w
            = (Returned, snd (select_environment ms name ''delete'' w))"
      by (simp add: cmd_delete_def locate_aborts[OF m s(1)])
    then show "fst (cmd_delete h name version yes w) = Returned
           \<and> stdin (snd (cmd_delete h name version yes w)) = stdin w
           \<and> fs (snd (cmd_delete h name version yes w)) = fs w"
      using s by simp
  qed
  have single: "\<And>ver env_dir. resolve (fs w) name version = SingleMatch ver env_dir
        \<Longrightarrow> stdin w = [] \<Longrightarrow> fst (cmd_delete h name version False w) = Blocked"
  proof -
    fix ver env_dir
    assume r: "resolve (fs w) name version = SingleMatch ver env_dir" and e: "stdin w = []"
    have "stdin (snd (locate ''delete'' name version w)) = []"
      using locate_single(3)[OF r, of "''delete''"] e by simp
    then have "fst (py_input (confirm_prompt h env_dir) (snd (locate ''delete'' name version w)))
                 = Hang"
      by (simp add: py_input_def Let_def)
    then show "fst (cmd_delete h name version False w) = Blocked"
      by (cases "py_input (confirm_prompt h env_dir) (snd (locate ''delete'' name version w))")
         (simp add: cmd_delete_single[OF r])
  qed
  show ?thesis
    using select_unattended_any[OF na, of _ name] act del multi single by blast
qed

theorem unattended_menu_never_reads_witness:
  "\<not> stdin_isatty (example_world example_two False [Line ''1''])
   \<and> fst (cmd_activate example_host ''alpha'' None False False
             (example_world example_two False [Line ''1''])) \<noteq> Blocked
   \<and> stdin (snd (cmd_activate example_host ''alpha'' None False False
                    (example_world example_two False [Line ''1'']))) = [Line ''1'']
   \<and> fst (cmd_delete example_host ''alpha'' None False
             (example_world example_two False [Line ''1''])) = Returned
   \<and> fs (snd (cmd_delete example_host ''alpha'' None False
                 (example_world example_two False [Line ''1'']))) = example_two"
proof -
  let ?w = "example_world example_two False [Line ''1'']"
  let ?ms = "[(''3.11'', [''3.11'', ''alpha'']), (''3.10'', [''3.10'', ''alpha''])]"
  have na: "\<not> stdin_isatty ?w" by (simp add: example_world_def)
  have r: "resolve (fs ?w) ''alpha'' None = MultipleMatches ?ms" by code_simp
  have f: "fs ?w = example_two" and i: "stdin ?w = [Line ''1'']"
    by (simp_all add: example_world_def)
  note t = unattended_menu_never_reads
    [OF na, where name = "''alpha''" and h = example_host and version = None
       and shell = False and interactive = False and yes = False]
  from t have a: "fst (cmd_activate example_host ''alpha'' None False False ?w) \<noteq> Blocked
       \<and> stdin (snd (cmd_activate example_host ''alpha'' None False False ?w)) = stdin ?w"
    by blast
  from t r have d: "fst (cmd_delete example_host ''alpha'' None False ?w) = Returned
       \<and> fs (snd (cmd_delete example_host ''alpha'' None False ?w)) = fs ?w"
    by blast
  show ?thesis using na a d unfolding f i by blast
qed

end
